theory Spec2Isabelle
  imports Complex_Main "HOL-Library.Log_Nat"
begin

section \<open>Python and numpy values\<close>

text \<open>
  Errors are values. \<open>ValueError\<close> is what \<open>range\<close>, numpy and scipy raise; the strings of
  library errors are labels naming the routine that raises, not the libraries' own texts.
  \<open>AssertionError\<close> and \<open>PyException\<close> are the two kinds the repository raises itself
  (\<open>assert\<close> and \<open>raise Exception(...)\<close> in \<open>shift_align\<close>).
\<close>

datatype error =
    ValueError string
  | ZeroDivisionError
  | AssertionError string
  | PyException string
  | LoadError string

fun raised_by_shign :: "error \<Rightarrow> bool" where
  "raised_by_shign (AssertionError _) = True"
| "raised_by_shign (PyException _) = True"
| "raised_by_shign _ = False"

subsection \<open>Scalar floats: binary64 rounding\<close>

text \<open>
  A Python float is modelled by the real number it denotes, and every scalar operation
  rounds its exact result to the nearest binary64 number, ties to even (53 significant
  bits). The exponent range is not bounded: overflow and gradual underflow are left out,
  the quantities of this program (milliseconds, seconds, sample counts) being far from
  both. The rounding matters because \<open>int(...)\<close> truncates the rounded result.
\<close>

definition pow2 :: "int \<Rightarrow> real" where
  "pow2 e = (if 0 \<le> e then 2 ^ nat e else 1 / 2 ^ nat (- e))"

definition float_exp :: "real \<Rightarrow> int" where
  \<comment> \<open>the exponent \<open>e\<close> with \<open>2^e \<le> |x| < 2^(e+1)\<close>, for \<open>x \<noteq> 0\<close>\<close>
  "float_exp x =
     (if 1 \<le> \<bar>x\<bar> then bitlen \<lfloor>\<bar>x\<bar>\<rfloor> - 1 else - bitlen (\<lceil>1 / \<bar>x\<bar>\<rceil> - 1))"

definition round_half_even :: "real \<Rightarrow> int" where
  "round_half_even m =
     (let f = \<lfloor>m\<rfloor>; d = m - of_int f
      in if d < 1/2 then f else if 1/2 < d then f + 1 else if even f then f else f + 1)"

definition float64 :: "real \<Rightarrow> real" where
  "float64 x =
     (if x = 0 then 0
      else let q = pow2 (float_exp x - 52)
           in sgn x * of_int (round_half_even (\<bar>x\<bar> / q)) * q)"

definition fadd :: "real \<Rightarrow> real \<Rightarrow> real" where
  "fadd x y = float64 (x + y)"

definition fsub :: "real \<Rightarrow> real \<Rightarrow> real" where
  "fsub x y = float64 (x - y)"

definition fmul :: "real \<Rightarrow> real \<Rightarrow> real" where
  "fmul x y = float64 (x * y)"

definition fdiv :: "real \<Rightarrow> real \<Rightarrow> real" where
  \<comment> \<open>callers test the divisor first: Python raises at a zero divisor\<close>
  "fdiv x y = float64 (x / y)"

definition int_to_float :: "int \<Rightarrow> real" where
  \<comment> \<open>an int operand of a float operation is converted first\<close>
  "int_to_float n = float64 (of_int n)"

definition int_truediv :: "int \<Rightarrow> int \<Rightarrow> real" where
  \<comment> \<open>\<open>a / b\<close> on two ints is the correctly rounded quotient; callers test \<open>b\<close>\<close>
  "int_truediv a b = float64 (of_int a / of_int b)"

definition py_int :: "real \<Rightarrow> int" where
  \<comment> \<open>\<open>int(x)\<close> on a float truncates toward zero\<close>
  "py_int x = (if 0 \<le> x then \<lfloor>x\<rfloor> else \<lceil>x\<rceil>)"

definition np_round :: "real \<Rightarrow> real" where
  \<comment> \<open>\<open>np.round\<close> rounds half to even\<close>
  "np_round x = of_int (round_half_even x)"

subsection \<open>Array entries\<close>

text \<open>
  Waveform samples are finite reals. Entries of the arrays numpy computes can also be
  \<open>nan\<close> (the mean of an empty slice) or infinite (a division by zero), so they have a
  type of their own. Arithmetic on the finite entries is exact: the rounding inside
  numpy's vectorised sums is not modelled, and signed zeros are not distinguished.
\<close>

datatype npfloat = Fin real | PInf | NInf | NaN

fun is_fin :: "npfloat \<Rightarrow> bool" where
  "is_fin (Fin _) = True"
| "is_fin _ = False"

fun np_add :: "npfloat \<Rightarrow> npfloat \<Rightarrow> npfloat" where
  "np_add (Fin a) (Fin b) = Fin (a + b)"
| "np_add NaN _ = NaN"
| "np_add _ NaN = NaN"
| "np_add PInf NInf = NaN"
| "np_add NInf PInf = NaN"
| "np_add PInf _ = PInf"
| "np_add _ PInf = PInf"
| "np_add NInf _ = NInf"
| "np_add _ NInf = NInf"

fun np_neg :: "npfloat \<Rightarrow> npfloat" where
  "np_neg (Fin a) = Fin (- a)"
| "np_neg PInf = NInf"
| "np_neg NInf = PInf"
| "np_neg NaN = NaN"

fun np_mul :: "npfloat \<Rightarrow> npfloat \<Rightarrow> npfloat" where
  "np_mul (Fin a) (Fin b) = Fin (a * b)"
| "np_mul NaN _ = NaN"
| "np_mul _ NaN = NaN"
| "np_mul (Fin a) y = (if a = 0 then NaN else if 0 < a then y else np_neg y)"
| "np_mul x (Fin b) = (if b = 0 then NaN else if 0 < b then x else np_neg x)"
| "np_mul x y = (if x = y then PInf else NInf)"

fun np_div :: "npfloat \<Rightarrow> npfloat \<Rightarrow> npfloat" where
  "np_div (Fin a) (Fin b) =
     (if b \<noteq> 0 then Fin (a / b) else if a = 0 then NaN else if 0 < a then PInf else NInf)"
| "np_div NaN _ = NaN"
| "np_div _ NaN = NaN"
| "np_div (Fin a) _ = Fin 0"
| "np_div x (Fin b) = (if 0 \<le> b then x else np_neg x)"
| "np_div _ _ = NaN"

fun np_sqrt :: "npfloat \<Rightarrow> npfloat" where
  "np_sqrt (Fin a) = (if 0 \<le> a then Fin (sqrt a) else NaN)"
| "np_sqrt PInf = PInf"
| "np_sqrt _ = NaN"

fun np_le :: "npfloat \<Rightarrow> npfloat \<Rightarrow> bool" where
  "np_le (Fin a) (Fin b) = (a \<le> b)"
| "np_le NaN _ = False"
| "np_le _ NaN = False"
| "np_le NInf _ = True"
| "np_le _ PInf = True"
| "np_le _ _ = False"

definition np_sum :: "npfloat list \<Rightarrow> npfloat" where
  "np_sum xs = foldl np_add (Fin 0) xs"

definition np_mean :: "real list \<Rightarrow> npfloat" where
  \<comment> \<open>the mean of an empty slice is \<open>nan\<close> (numpy warns, it does not raise)\<close>
  "np_mean xs = (if xs = [] then NaN else Fin (sum_list xs / real (length xs)))"

definition ones_like :: "npfloat list \<Rightarrow> npfloat list" where
  "ones_like xs = replicate (length xs) (Fin 1)"

definition np_zeros :: "int \<Rightarrow> error + real list" where
  "np_zeros n =
     (if n < 0 then Inl (ValueError ''zeros: negative dimensions are not allowed'')
      else Inr (replicate (nat n) 0))"

subsection \<open>Slices, range, argmax\<close>

definition norm_index :: "nat \<Rightarrow> int \<Rightarrow> nat" where
  \<comment> \<open>a slice bound in a sequence of length \<open>n\<close>: negative bounds count from the end,
      and every bound is clamped into \<open>0..n\<close>\<close>
  "norm_index n i = (if i < 0 then nat (max (i + int n) 0) else min (nat i) n)"

definition py_slice :: "'a list \<Rightarrow> int \<Rightarrow> int \<Rightarrow> 'a list" where
  \<comment> \<open>\<open>xs[i:j]\<close>\<close>
  "py_slice xs i j =
     (let s = norm_index (length xs) i; e = norm_index (length xs) j
      in take (e - s) (drop s xs))"

definition py_slice_from :: "'a list \<Rightarrow> int \<Rightarrow> 'a list" where
  \<comment> \<open>\<open>xs[i:]\<close>\<close>
  "py_slice_from xs i = drop (norm_index (length xs) i) xs"

definition py_slice_upto :: "'a list \<Rightarrow> int \<Rightarrow> 'a list" where
  \<comment> \<open>\<open>xs[:j]\<close>\<close>
  "py_slice_upto xs j = take (norm_index (length xs) j) xs"

definition fill_upto :: "'a list \<Rightarrow> int \<Rightarrow> 'a \<Rightarrow> 'a list" where
  \<comment> \<open>\<open>xs[:j] = v\<close>\<close>
  "fill_upto xs j v =
     (let e = norm_index (length xs) j in replicate e v @ drop e xs)"

definition fill_from :: "'a list \<Rightarrow> int \<Rightarrow> 'a \<Rightarrow> 'a list" where
  \<comment> \<open>\<open>xs[i:] = v\<close>\<close>
  "fill_from xs i v =
     (let s = norm_index (length xs) i in take s xs @ replicate (length xs - s) v)"

definition py_range :: "int \<Rightarrow> int \<Rightarrow> int \<Rightarrow> error + int list" where
  \<comment> \<open>\<open>range(start, stop, step)\<close>\<close>
  "py_range start stop step =
     (if step = 0 then Inl (ValueError ''range() arg 3 must not be zero'')
      else if 0 < step
        then Inr (map (\<lambda>k. start + int k * step)
                    [0 ..< nat ((stop - start + step - 1) div step)])
        else Inr (map (\<lambda>k. start + int k * step)
                    [0 ..< nat ((start - stop - step - 1) div (- step))]))"

fun argmax_loop :: "npfloat list \<Rightarrow> nat \<Rightarrow> npfloat \<Rightarrow> nat \<Rightarrow> nat" where
  \<comment> \<open>numpy's scan: a later entry replaces the maximum only if it is not \<open>\<le>\<close> it, and
      the first \<open>nan\<close> ends the scan\<close>
  "argmax_loop [] i mp max_ind = max_ind"
| "argmax_loop (x # xs) i mp max_ind =
     (if \<not> np_le x mp
      then (if x = NaN then i else argmax_loop xs (Suc i) x i)
      else argmax_loop xs (Suc i) mp max_ind)"

fun np_argmax :: "npfloat list \<Rightarrow> error + nat" where
  "np_argmax [] = Inl (ValueError ''argmax: empty sequence'')"
| "np_argmax (x # xs) = Inr (if x = NaN then 0 else argmax_loop xs 1 x 0)"

section \<open>util.py\<close>

definition frames_to_ms :: "real \<Rightarrow> real \<Rightarrow> real" where
  "frames_to_ms frames frame_length_ms = fmul frames frame_length_ms"

definition ms_to_frames :: "real \<Rightarrow> real \<Rightarrow> error + int" where
  "ms_to_frames ms frame_length_ms =
     (if frame_length_ms = 0 then Inl ZeroDivisionError
      else Inr (py_int (fdiv ms frame_length_ms)))"

definition sec_to_samples :: "real \<Rightarrow> int \<Rightarrow> int" where
  "sec_to_samples sec sr = py_int (fmul sec (int_to_float sr))"

definition ms_to_samples :: "real \<Rightarrow> int \<Rightarrow> int" where
  "ms_to_samples ms sr = sec_to_samples (fdiv ms 1000) sr"

definition samples_to_sec :: "int \<Rightarrow> int \<Rightarrow> error + real" where
  "samples_to_sec samples sr =
     (if sr = 0 then Inl ZeroDivisionError else Inr (int_truediv samples sr))"

definition samples_to_ms :: "int \<Rightarrow> int \<Rightarrow> error + real" where
  "samples_to_ms samples sr =
     (case samples_to_sec samples sr of
        Inl e \<Rightarrow> Inl e
      | Inr sec \<Rightarrow> Inr (fmul 1000 sec))"

definition sec_to_frames :: "real \<Rightarrow> real \<Rightarrow> error + int" where
  "sec_to_frames sec frame_length_ms = ms_to_frames (fmul 1000 sec) frame_length_ms"

definition rms :: "real list \<Rightarrow> npfloat" where
  \<comment> \<open>\<open>np.sqrt(np.mean(window**2))\<close>\<close>
  "rms window = np_sqrt (np_mean (map (\<lambda>x. x * x) window))"

definition audio_to_rms_envelope ::
  "real list \<Rightarrow> int \<Rightarrow> real \<Rightarrow> real \<Rightarrow> error + npfloat list" where
  "audio_to_rms_envelope audio sr win_length_ms hop_length_ms =
     (let win_length = ms_to_samples win_length_ms sr;
          hop_length = ms_to_samples hop_length_ms sr
      in case py_range 0 (int (length audio) - win_length) hop_length of
           Inl e \<Rightarrow> Inl e
         | Inr starts \<Rightarrow>
             Inr (map (\<lambda>i. rms (py_slice audio i (i + win_length))) starts))"

section \<open>shign.py\<close>

subsection \<open>The shift estimator\<close>

definition correlate :: "npfloat list \<Rightarrow> npfloat list \<Rightarrow> error + npfloat list" where
  \<comment> \<open>\<open>scipy.signal.correlate(in1, in2, mode='full')\<close> on one-dimensional arrays:
      \<open>z[k] = sum over l of in1[l] * in2[l - k + N - 1]\<close>, over the overlapping entries,
      for \<open>k = 0 .. M + N - 2\<close>; an empty input is rejected by the routine\<close>
  "correlate in1 in2 =
     (if in1 = [] \<or> in2 = [] then Inl (ValueError ''correlate: empty input'')
      else Inr (map (\<lambda>k. np_sum (map (\<lambda>l. np_mul (in1 ! l) (in2 ! (l + length in2 - 1 - k)))
                                     [k + 1 - length in2 ..< min (length in1) (k + 1)]))
                  [0 ..< length in1 + length in2 - 1]))"

definition normalized_corr :: "npfloat list \<Rightarrow> npfloat list \<Rightarrow> error + npfloat list" where
  \<comment> \<open>lines 47 to 49: \<open>corr_num / corr_denom\<close>, element by element\<close>
  "normalized_corr rms_a rms_b =
     (case correlate rms_a rms_b of
        Inl e \<Rightarrow> Inl e
      | Inr corr_num \<Rightarrow>
          (case correlate (ones_like rms_a) (ones_like rms_b) of
             Inl e \<Rightarrow> Inl e
           | Inr corr_denom \<Rightarrow> Inr (map2 np_div corr_num corr_denom)))"

definition half_index :: "npfloat list \<Rightarrow> int" where
  \<comment> \<open>line 50: \<open>int(np.round(len(corr) / 2))\<close>\<close>
  "half_index corr = py_int (np_round (int_truediv (int (length corr)) 2))"

definition constrain_min_overlap ::
  "npfloat list \<Rightarrow> real \<Rightarrow> real \<Rightarrow> error + npfloat list" where
  \<comment> \<open>lines 52 to 55: \<open>corr[:n] = 0; corr[-n:] = 0\<close>\<close>
  "constrain_min_overlap corr min_overlap_sec hop_length_ms =
     (if min_overlap_sec \<noteq> 0
      then (case sec_to_frames min_overlap_sec hop_length_ms of
              Inl e \<Rightarrow> Inl e
            | Inr n \<Rightarrow> Inr (fill_from (fill_upto corr n (Fin 0)) (- n) (Fin 0)))
      else Inr corr)"

definition constrain_max_shift ::
  "npfloat list \<Rightarrow> int \<Rightarrow> real \<Rightarrow> real \<Rightarrow> error + npfloat list" where
  \<comment> \<open>lines 57 to 60\<close>
  "constrain_max_shift corr half_idx max_shift_sec hop_length_ms =
     (if max_shift_sec \<noteq> 0
      then (case sec_to_frames max_shift_sec hop_length_ms of
              Inl e \<Rightarrow> Inl e
            | Inr n \<Rightarrow>
                Inr (fill_from (fill_upto corr (max (half_idx - n) 0) (Fin 0))
                       (min (half_idx + n) (int (length corr))) (Fin 0)))
      else Inr corr)"

definition shift_of_argmax :: "nat \<Rightarrow> int \<Rightarrow> nat \<Rightarrow> nat \<Rightarrow> real \<Rightarrow> real" where
  \<comment> \<open>lines 62 to 64, from the argmax, \<open>half_idx\<close> and the two envelope lengths\<close>
  "shift_of_argmax k half_idx len_a len_b hop_length_ms =
     (let shift_idx = int k - half_idx;
          shift_idx = fadd (int_to_float shift_idx) (int_truediv (int len_a - int len_b) 2)
      in frames_to_ms shift_idx hop_length_ms)"

definition get_shift_ms ::
  "real list \<Rightarrow> real list \<Rightarrow> int \<Rightarrow> int \<Rightarrow> real \<Rightarrow> real \<Rightarrow> real \<Rightarrow> real \<Rightarrow> error + real" where
  "get_shift_ms audio_a audio_b sr_a sr_b win_length_ms hop_length_ms min_overlap_sec max_shift_sec =
     (case audio_to_rms_envelope audio_a sr_a win_length_ms hop_length_ms of
        Inl e \<Rightarrow> Inl e
      | Inr rms_a \<Rightarrow>
     (case audio_to_rms_envelope audio_b sr_b win_length_ms hop_length_ms of
        Inl e \<Rightarrow> Inl e
      | Inr rms_b \<Rightarrow>
     (case normalized_corr rms_a rms_b of
        Inl e \<Rightarrow> Inl e
      | Inr corr \<Rightarrow>
     (let half_idx = half_index corr
      in case constrain_min_overlap corr min_overlap_sec hop_length_ms of
        Inl e \<Rightarrow> Inl e
      | Inr corr1 \<Rightarrow>
     (case constrain_max_shift corr1 half_idx max_shift_sec hop_length_ms of
        Inl e \<Rightarrow> Inl e
      | Inr corr2 \<Rightarrow>
     (case np_argmax corr2 of
        Inl e \<Rightarrow> Inl e
      | Inr k \<Rightarrow>
          Inr (shift_of_argmax k half_idx (length rms_a) (length rms_b) hop_length_ms)))))))"

subsection \<open>The alignment transforms\<close>

definition pad_both ::
  "real list \<Rightarrow> real list \<Rightarrow> int \<Rightarrow> int \<Rightarrow> real \<Rightarrow> error + real list \<times> real list" where
  "pad_both audio_a audio_b sr_a sr_b shift_ms =
     (let shift_start_ms = shift_ms;
          shift_start_a_ms = - min 0 shift_start_ms;
          shift_start_b_ms = max 0 shift_start_ms;
          shift_start_a_samples = ms_to_samples shift_start_a_ms sr_a;
          shift_start_b_samples = ms_to_samples shift_start_b_ms sr_b
      in case np_zeros shift_start_a_samples of Inl e \<Rightarrow> Inl e | Inr za \<Rightarrow>
        (case np_zeros shift_start_b_samples of Inl e \<Rightarrow> Inl e | Inr zb \<Rightarrow>
        (let audio_a = za @ audio_a;
             audio_b = zb @ audio_b
         in case samples_to_ms (int (length audio_a)) sr_a of Inl e \<Rightarrow> Inl e | Inr ms_a \<Rightarrow>
           (case samples_to_ms (int (length audio_b)) sr_b of Inl e \<Rightarrow> Inl e | Inr ms_b \<Rightarrow>
           (let shift_end_ms = fsub ms_a ms_b;
                shift_end_a_ms = - min 0 shift_end_ms;
                shift_end_b_ms = max 0 shift_end_ms;
                shift_end_a_samples = ms_to_samples shift_end_a_ms sr_a;
                shift_end_b_samples = ms_to_samples shift_end_b_ms sr_b
            in case np_zeros shift_end_a_samples of Inl e \<Rightarrow> Inl e | Inr ya \<Rightarrow>
              (case np_zeros shift_end_b_samples of Inl e \<Rightarrow> Inl e | Inr yb \<Rightarrow>
                 Inr (audio_a @ ya, audio_b @ yb)))))))"

definition crop_both ::
  "real list \<Rightarrow> real list \<Rightarrow> int \<Rightarrow> int \<Rightarrow> real \<Rightarrow> error + real list \<times> real list" where
  "crop_both audio_a audio_b sr_a sr_b shift_ms =
     (let shift_start_ms = shift_ms;
          shift_start_a_ms = max 0 shift_start_ms;
          shift_start_b_ms = - min 0 shift_start_ms;
          shift_start_a_samples = ms_to_samples shift_start_a_ms sr_a;
          shift_start_b_samples = ms_to_samples shift_start_b_ms sr_b;
          audio_a = py_slice_from audio_a shift_start_a_samples;
          audio_b = py_slice_from audio_b shift_start_b_samples
      in case samples_to_ms (int (length audio_a)) sr_a of Inl e \<Rightarrow> Inl e | Inr ms_a \<Rightarrow>
        (case samples_to_ms (int (length audio_b)) sr_b of Inl e \<Rightarrow> Inl e | Inr ms_b \<Rightarrow>
        (let shift_end_ms = fsub ms_a ms_b;
             shift_end_a_ms = max 0 shift_end_ms;
             shift_end_b_ms = - min 0 shift_end_ms;
             shift_end_a_samples = ms_to_samples shift_end_a_ms sr_a;
             shift_end_b_samples = ms_to_samples shift_end_b_ms sr_b;
             audio_a = (if 0 < shift_end_a_samples
                        then py_slice_upto audio_a (- shift_end_a_samples) else audio_a);
             audio_b = (if 0 < shift_end_b_samples
                        then py_slice_upto audio_b (- shift_end_b_samples) else audio_b)
         in Inr (audio_a, audio_b))))"

definition pad_and_crop_one_to_match_other ::
  "real list \<Rightarrow> real list \<Rightarrow> int \<Rightarrow> int \<Rightarrow> real \<Rightarrow> error + real list \<times> real list" where
  "pad_and_crop_one_to_match_other audio_a audio_b sr_a sr_b shift_ms =
     (let shift_start_ms = shift_ms;
          shift_start_samples = ms_to_samples shift_start_ms sr_b
      in case (if shift_start_samples < 0
               then Inr (py_slice_from audio_b \<bar>shift_start_samples\<bar>)
               else (case np_zeros shift_start_samples of
                       Inl e \<Rightarrow> Inl e | Inr z \<Rightarrow> Inr (z @ audio_b))) of
           Inl e \<Rightarrow> Inl e
         | Inr audio_b \<Rightarrow>
        (case samples_to_ms (int (length audio_a)) sr_a of Inl e \<Rightarrow> Inl e | Inr ms_a \<Rightarrow>
        (case samples_to_ms (int (length audio_b)) sr_b of Inl e \<Rightarrow> Inl e | Inr ms_b \<Rightarrow>
        (let shift_end_ms = fsub ms_a ms_b;
             shift_end_samples = ms_to_samples shift_end_ms sr_b
         in case (if shift_end_samples < 0
                  then Inr (py_slice_upto audio_b (- \<bar>shift_end_samples\<bar>))
                  else (case np_zeros shift_end_samples of
                          Inl e \<Rightarrow> Inl e | Inr z \<Rightarrow> Inr (audio_b @ z))) of
              Inl e \<Rightarrow> Inl e
            | Inr audio_b \<Rightarrow> Inr (audio_a, audio_b)))))"

subsection \<open>The entry point\<close>

text \<open>
  An input is an array or the path of a file. The decoder (\<open>librosa.load\<close>) is outside the
  repository: it is a parameter, from a path and an optional sample rate to a waveform
  with its sample rate, or an error.
\<close>

datatype audio_input = Path string | Array "real list"

type_synonym loader = "string \<Rightarrow> int option \<Rightarrow> error + real list \<times> int"

definition load_input :: "loader \<Rightarrow> audio_input \<Rightarrow> int option \<Rightarrow> error + real list \<times> int option" where
  \<comment> \<open>lines 307 to 310, for one of the two inputs\<close>
  "load_input load audio sr =
     (case audio of
        Path p \<Rightarrow> (case load p sr of Inl e \<Rightarrow> Inl e | Inr (y, sr') \<Rightarrow> Inr (y, Some sr'))
      | Array xs \<Rightarrow> Inr (xs, sr))"

definition shift_align ::
  "loader \<Rightarrow> audio_input \<Rightarrow> audio_input \<Rightarrow> int option \<Rightarrow> int option \<Rightarrow> string \<Rightarrow> real \<Rightarrow> real
     \<Rightarrow> error + real list \<times> real list" where
  "shift_align load audio_a audio_b sr_a sr_b align_how min_overlap_sec max_shift_sec =
     (case load_input load audio_a sr_a of Inl e \<Rightarrow> Inl e | Inr (audio_a, sr_a) \<Rightarrow>
     (case load_input load audio_b sr_b of Inl e \<Rightarrow> Inl e | Inr (audio_b, sr_b) \<Rightarrow>
     (case sr_a of
        None \<Rightarrow> Inl (AssertionError
          ''please submit a path to an audio file or an audio array with explicit samplerate'')
      | Some sr_a \<Rightarrow>
     (case sr_b of
        None \<Rightarrow> Inl (AssertionError
          ''please submit a path to an audio file or an audio array with explicit samplerate'')
      | Some sr_b \<Rightarrow>
     (case get_shift_ms audio_a audio_b sr_a sr_b 25 10 min_overlap_sec max_shift_sec of
        Inl e \<Rightarrow> Inl e
      | Inr shift_ms \<Rightarrow>
          if align_how = ''pad_both''
          then pad_both audio_a audio_b sr_a sr_b shift_ms
          else if align_how = ''crop_both''
          then crop_both audio_a audio_b sr_a sr_b shift_ms
          else if align_how = ''pad_and_crop_one_to_match_other''
          then pad_and_crop_one_to_match_other audio_a audio_b sr_a sr_b shift_ms
          else Inl (PyException (''Unknown value for align_how '' @ align_how)))))))"

section \<open>Notions used in the statements\<close>

text \<open>
  These are not functions of the program. \<open>xcorr\<close> is the full cross-correlation of
  two real sequences at index \<open>k\<close>; \<open>overlap\<close> is the number of entry pairs that the sum
  at index \<open>k\<close> covers, for sequences of lengths \<open>m\<close> and \<open>n\<close>; \<open>ulp52\<close> is used in the
  error analysis of the float arithmetic. \<open>rms_value\<close> is the root mean square of a
  non-empty window as a real number, and \<open>envelope_values\<close> the sequence of these values
  over the windows of \<open>w\<close> samples that start every \<open>h\<close> samples and end before the last
  sample. \<open>surviving_lag m k\<close> says that index \<open>k\<close> of the correlation of two envelopes of
  \<open>m\<close> frames is at least 100 frames from both ends and less than 3000 frames from the
  centre index, which is \<open>m\<close> for an even \<open>m\<close> and \<open>m - 1\<close> for an odd one.
\<close>

definition xcorr :: "real list \<Rightarrow> real list \<Rightarrow> nat \<Rightarrow> real" where
  "xcorr xs ys k = sum_list (map (\<lambda>l. xs ! l * ys ! (l + length ys - 1 - k))
                                [k + 1 - length ys ..< min (length xs) (k + 1)])"

definition overlap :: "nat \<Rightarrow> nat \<Rightarrow> nat \<Rightarrow> nat" where
  "overlap m n k = min m (k + 1) - (k + 1 - n)"

definition ulp52 :: real where
  \<comment> \<open>a bound on the relative error of one rounding, for inputs that carry an error already\<close>
  "ulp52 = 1 / 2 ^ 52"




section \<open>Properties of binary64 rounding\<close>

lemma pow2_powi: "pow2 e = 2 powi e"
  unfolding pow2_def power_int_def by (simp add: power_one_over inverse_eq_divide)

lemma pow2_pos [simp]: "0 < pow2 e"
  by (simp add: pow2_powi)

lemma pow2_nonzero [simp]: "pow2 e \<noteq> 0"
  using pow2_pos [of e] by linarith

lemma pow2_add: "pow2 (a + b) = pow2 a * pow2 b"
  by (simp add: pow2_powi power_int_add)

lemma pow2_nat: "0 \<le> e \<Longrightarrow> pow2 e = 2 ^ nat e"
  by (simp add: pow2_def)

lemma pow2_neg: "pow2 (- e) = 1 / pow2 e"
  by (simp add: pow2_powi power_int_minus inverse_eq_divide)

lemma pow2_mono: "a \<le> b \<Longrightarrow> pow2 a \<le> pow2 b"
  unfolding pow2_powi by (rule power_int_increasing) simp_all

lemma pow2_less_imp: "pow2 a < pow2 b \<Longrightarrow> a < b"
  using pow2_mono [of b a] by linarith

lemma float_exp_bounds:
  assumes "x \<noteq> 0"
  shows "pow2 (float_exp x) \<le> \<bar>x\<bar> \<and> \<bar>x\<bar> < pow2 (float_exp x + 1)"
proof (cases "1 \<le> \<bar>x\<bar>")
  case True
  define n where "n = \<lfloor>\<bar>x\<bar>\<rfloor>"
  have n1: "1 \<le> n" using True unfolding n_def by simp
  then have n0: "0 < n" by simp
  have b1: "1 \<le> bitlen n" using n0 by (simp add: bitlen_alt_def)
  have e: "float_exp x = bitlen n - 1" using True unfolding float_exp_def n_def by simp
  from bitlen_bounds [OF n0] have lo: "2 ^ nat (bitlen n - 1) \<le> n" and hi: "n < 2 ^ nat (bitlen n)"
    by simp_all
  have "pow2 (bitlen n - 1) = real_of_int (2 ^ nat (bitlen n - 1))" using b1 by (simp add: pow2_nat)
  also have "\<dots> \<le> real_of_int n" using lo by (simp only: of_int_le_iff)
  also have "\<dots> \<le> \<bar>x\<bar>" unfolding n_def by simp
  finally have A: "pow2 (float_exp x) \<le> \<bar>x\<bar>" unfolding e .
  have "n + 1 \<le> 2 ^ nat (bitlen n)" using hi by simp
  then have "real_of_int (n + 1) \<le> real_of_int (2 ^ nat (bitlen n))" by (simp only: of_int_le_iff)
  moreover have "\<bar>x\<bar> < real_of_int (n + 1)" unfolding n_def by linarith
  moreover have "pow2 (bitlen n - 1 + 1) = real_of_int (2 ^ nat (bitlen n))" using b1 by (simp add: pow2_nat)
  ultimately have B: "\<bar>x\<bar> < pow2 (float_exp x + 1)" unfolding e by simp
  from A B show ?thesis ..
next
  case False
  then have x1: "\<bar>x\<bar> < 1" by simp
  have x0: "0 < \<bar>x\<bar>" using assms by simp
  define y where "y = 1 / \<bar>x\<bar>"
  have y1: "1 < y" using x0 x1 unfolding y_def by simp
  define c where "c = \<lceil>y\<rceil>"
  have c2: "2 \<le> c" using y1 unfolding c_def by linarith
  then have c0: "0 < c - 1" by simp
  define j where "j = bitlen (c - 1)"
  have j1: "1 \<le> j" using c0 unfolding j_def by (simp add: bitlen_alt_def)
  have e: "float_exp x = - j" using False unfolding float_exp_def j_def c_def y_def by simp
  from bitlen_bounds [OF c0] have lo: "2 ^ nat (j - 1) \<le> c - 1" and hi: "c - 1 < 2 ^ nat j"
    unfolding j_def by simp_all
  have "c \<le> 2 ^ nat j" using hi by simp
  then have "real_of_int c \<le> real_of_int (2 ^ nat j)" by (simp only: of_int_le_iff)
  moreover have "y \<le> real_of_int c" unfolding c_def by simp
  moreover have "pow2 j = real_of_int (2 ^ nat j)" using j1 by (simp add: pow2_nat)
  ultimately have "y \<le> pow2 j" by linarith
  then have "1 / pow2 j \<le> 1 / y" using y1 by (simp add: frac_le)
  then have A: "pow2 (float_exp x) \<le> \<bar>x\<bar>" unfolding e pow2_neg y_def by simp
  have "real_of_int (2 ^ nat (j - 1)) \<le> real_of_int (c - 1)" using lo by (simp only: of_int_le_iff)
  moreover have "real_of_int (c - 1) < y" unfolding c_def by linarith
  moreover have "pow2 (j - 1) = real_of_int (2 ^ nat (j - 1))" using j1 by (simp add: pow2_nat)
  ultimately have "pow2 (j - 1) < y" by linarith
  then have "1 / y < 1 / pow2 (j - 1)" by (simp add: frac_less2)
  moreover have "pow2 (- j + 1) = 1 / pow2 (j - 1)" using pow2_neg [of "j - 1"] by simp
  ultimately have B: "\<bar>x\<bar> < pow2 (float_exp x + 1)" unfolding e y_def by simp
  from A B show ?thesis ..
qed

lemma round_half_even_error: "\<bar>real_of_int (round_half_even m) - m\<bar> \<le> 1/2"
proof -
  have "real_of_int \<lfloor>m\<rfloor> \<le> m" "m < real_of_int \<lfloor>m\<rfloor> + 1" by linarith+
  then show ?thesis unfolding round_half_even_def Let_def
    by (auto simp: abs_if; linarith)
qed

lemma round_half_even_of_int [simp]: "round_half_even (real_of_int z) = z"
  unfolding round_half_even_def Let_def by simp

lemma float64_error: "\<bar>float64 x - x\<bar> \<le> \<bar>x\<bar> / 2 ^ 53"
proof (cases "x = 0")
  case True
  then show ?thesis by (simp add: float64_def)
next
  case False
  define q where "q = pow2 (float_exp x - 52)"
  define r where "r = real_of_int (round_half_even (\<bar>x\<bar> / q))"
  have q0: "0 < q" unfolding q_def by simp
  have f: "float64 x = sgn x * r * q" using False unfolding float64_def q_def r_def Let_def by simp
  have "x = sgn x * \<bar>x\<bar>" by (simp add: sgn_mult_abs)
  then have "float64 x - x = sgn x * (r * q - \<bar>x\<bar>)" unfolding f by (simp add: algebra_simps)
  then have "\<bar>float64 x - x\<bar> = \<bar>r * q - \<bar>x\<bar>\<bar>" using False by (simp add: abs_mult abs_sgn_eq)
  also have "r * q - \<bar>x\<bar> = (r - \<bar>x\<bar> / q) * q" using q0 by (simp add: algebra_simps)
  also have "\<bar>(r - \<bar>x\<bar> / q) * q\<bar> = \<bar>r - \<bar>x\<bar> / q\<bar> * q" using q0 by (simp add: abs_mult)
  also have "\<dots> \<le> 1/2 * q"
    using round_half_even_error [of "\<bar>x\<bar> / q"] q0 unfolding r_def by (intro mult_right_mono) simp_all
  also have "1/2 * q = pow2 (float_exp x) / 2 ^ 53"
  proof -
    have "pow2 (float_exp x) = pow2 (float_exp x - 52) * pow2 52" using pow2_add [of "float_exp x - 52" 52] by simp
    then show ?thesis unfolding q_def by (simp add: pow2_def)
  qed
  also have "\<dots> \<le> \<bar>x\<bar> / 2 ^ 53"
    using float_exp_bounds [OF False] by (simp add: divide_right_mono)
  finally show ?thesis .
qed

lemma float64_dyadic:
  assumes "\<bar>k\<bar> < 2 ^ 53"
  shows "float64 (real_of_int k * pow2 j) = real_of_int k * pow2 j"
proof (cases "k = 0")
  case True
  then show ?thesis by (simp add: float64_def)
next
  case False
  define x where "x = real_of_int k * pow2 j"
  have pj: "pow2 j \<noteq> 0" using pow2_pos [of j] by linarith
  have x0: "x \<noteq> 0" using False pj unfolding x_def by simp
  define e where "e = float_exp x"
  have "\<bar>pow2 j\<bar> = pow2 j" using pow2_pos [of j] by linarith
  then have ax: "\<bar>x\<bar> = real_of_int \<bar>k\<bar> * pow2 j" unfolding x_def by (simp add: abs_mult)
  have "real_of_int \<bar>k\<bar> < real_of_int (2 ^ 53)" using assms by (simp only: of_int_less_iff)
  then have "real_of_int \<bar>k\<bar> * pow2 j < 2 ^ 53 * pow2 j" by simp
  moreover have "(2::real) ^ 53 = pow2 53" by (simp add: pow2_def)
  ultimately have "\<bar>x\<bar> < pow2 (53 + j)" unfolding ax pow2_add by simp
  moreover have "pow2 e \<le> \<bar>x\<bar>" using float_exp_bounds [OF x0] unfolding e_def by simp
  ultimately have "pow2 e < pow2 (53 + j)" by linarith
  then have ej: "e < 53 + j" by (rule pow2_less_imp)
  define d where "d = j - (e - 52)"
  have d0: "0 \<le> d" using ej unfolding d_def by simp
  have "pow2 j = pow2 d * pow2 (e - 52)" using pow2_add [of d "e - 52"] unfolding d_def by simp
  then have "\<bar>x\<bar> / pow2 (e - 52) = real_of_int \<bar>k\<bar> * pow2 d" unfolding ax by simp
  also have "\<dots> = real_of_int (\<bar>k\<bar> * 2 ^ nat d)" using d0 by (simp add: pow2_nat)
  finally have m: "\<bar>x\<bar> / pow2 (e - 52) = real_of_int (\<bar>k\<bar> * 2 ^ nat d)" .
  have "float64 x = sgn x * real_of_int (round_half_even (\<bar>x\<bar> / pow2 (e - 52))) * pow2 (e - 52)"
    using x0 unfolding float64_def e_def Let_def by simp
  also have "\<dots> = sgn x * (\<bar>x\<bar> / pow2 (e - 52)) * pow2 (e - 52)"
    unfolding m by (simp only: round_half_even_of_int)
  also have "\<dots> = sgn x * \<bar>x\<bar>" by simp
  also have "\<dots> = x" by (simp add: sgn_mult_abs)
  finally show ?thesis unfolding x_def .
qed

lemma float64_of_int: "\<bar>k\<bar> < 2 ^ 53 \<Longrightarrow> float64 (real_of_int k) = real_of_int k"
  using float64_dyadic [of k 0] by (simp add: pow2_def)


section \<open>Conversions between milliseconds and samples\<close>

lemma py_int_trunc:
  "\<bar>real_of_int (py_int y)\<bar> \<le> \<bar>y\<bar> \<and> \<bar>y\<bar> < \<bar>real_of_int (py_int y)\<bar> + 1
     \<and> 0 \<le> real_of_int (py_int y) * y"
proof (cases "0 \<le> y")
  case True
  then have "py_int y = \<lfloor>y\<rfloor>" by (simp add: py_int_def)
  moreover have "0 \<le> \<lfloor>y\<rfloor>" using True by simp
  ultimately show ?thesis using True by (simp add: abs_if)
next
  case False
  then have e: "py_int y = \<lceil>y\<rceil>" by (simp add: py_int_def)
  have c0: "real_of_int \<lceil>y\<rceil> \<le> 0" using False by (simp add: ceiling_le_iff)
  have c1: "y \<le> real_of_int \<lceil>y\<rceil>" by (rule le_of_int_ceiling)
  have c2: "real_of_int \<lceil>y\<rceil> < y + 1" by linarith
  have y0: "y < 0" using False by simp
  have "0 \<le> real_of_int \<lceil>y\<rceil> * y"
    using c0 y0 by (simp add: mult_nonpos_nonpos)
  moreover have "\<bar>real_of_int \<lceil>y\<rceil>\<bar> = - real_of_int \<lceil>y\<rceil>" using c0 by simp
  moreover have "\<bar>y\<bar> = - y" using y0 by simp
  ultimately show ?thesis unfolding e using c1 c2 by linarith
qed

lemma pad_both_result:
  assumes "pad_both audio_a audio_b sr_a sr_b shift_ms = Inr (out_a, out_b)"
  shows "\<exists>ms_a ms_b.
       samples_to_ms (ms_to_samples (- min 0 shift_ms) sr_a + int (length audio_a)) sr_a = Inr ms_a
     \<and> samples_to_ms (ms_to_samples (max 0 shift_ms) sr_b + int (length audio_b)) sr_b = Inr ms_b
     \<and> out_a = replicate (nat (ms_to_samples (- min 0 shift_ms) sr_a)) 0 @ audio_a
                 @ replicate (nat (ms_to_samples (- min 0 (fsub ms_a ms_b)) sr_a)) 0
     \<and> out_b = replicate (nat (ms_to_samples (max 0 shift_ms) sr_b)) 0 @ audio_b
                 @ replicate (nat (ms_to_samples (max 0 (fsub ms_a ms_b)) sr_b)) 0"
  using assms unfolding pad_both_def Let_def np_zeros_def
  by (auto split: sum.splits if_splits simp: nat_add_distrib)

lemma crop_both_result:
  assumes "crop_both audio_a audio_b sr_a sr_b shift_ms = Inr (out_a, out_b)"
  shows "\<exists>a1 b1 ms_a ms_b.
       a1 = py_slice_from audio_a (ms_to_samples (max 0 shift_ms) sr_a)
     \<and> b1 = py_slice_from audio_b (ms_to_samples (- min 0 shift_ms) sr_b)
     \<and> samples_to_ms (int (length a1)) sr_a = Inr ms_a
     \<and> samples_to_ms (int (length b1)) sr_b = Inr ms_b
     \<and> out_a = (if 0 < ms_to_samples (max 0 (fsub ms_a ms_b)) sr_a
                 then py_slice_upto a1 (- ms_to_samples (max 0 (fsub ms_a ms_b)) sr_a) else a1)
     \<and> out_b = (if 0 < ms_to_samples (- min 0 (fsub ms_a ms_b)) sr_b
                 then py_slice_upto b1 (- ms_to_samples (- min 0 (fsub ms_a ms_b)) sr_b) else b1)"
  using assms unfolding crop_both_def Let_def
  by (auto split: sum.splits)

lemma pad_and_crop_result:
  assumes "pad_and_crop_one_to_match_other audio_a audio_b sr_a sr_b shift_ms = Inr (out_a, out_b)"
  shows "out_a = audio_a
     \<and> (\<exists>b1 ms_a ms_b.
         b1 = (if ms_to_samples shift_ms sr_b < 0
               then py_slice_from audio_b \<bar>ms_to_samples shift_ms sr_b\<bar>
               else replicate (nat (ms_to_samples shift_ms sr_b)) 0 @ audio_b)
       \<and> samples_to_ms (int (length audio_a)) sr_a = Inr ms_a
       \<and> samples_to_ms (int (length b1)) sr_b = Inr ms_b
       \<and> out_b = (if ms_to_samples (fsub ms_a ms_b) sr_b < 0
                   then py_slice_upto b1 (- \<bar>ms_to_samples (fsub ms_a ms_b) sr_b\<bar>)
                   else b1 @ replicate (nat (ms_to_samples (fsub ms_a ms_b) sr_b)) 0))"
  using assms unfolding pad_and_crop_one_to_match_other_def Let_def np_zeros_def
  by (auto split: sum.splits if_splits)

text \<open>
  Claim C9, as the code has it. \<open>ms_to_samples\<close> does not round to the nearest sample: it
  truncates the float product \<open>ms / 1000 * sr\<close> toward zero, so the sample count never
  exceeds the product in magnitude, is less than one sample below it, and has its sign.
  Every displacement of the three alignment transforms is such a count, taken with the
  sample rate of the waveform it is applied to, and the transforms do nothing else to
  the waveforms. With \<open>ms_a\<close> and \<open>ms_b\<close> the durations after the leading step:
  \<^item> \<open>pad_both\<close> puts \<open>ms_to_samples(-min(0, shift_ms), sr_a)\<close> zeros before A and
    \<open>ms_to_samples(max(0, shift_ms), sr_b)\<close> before B, then
    \<open>ms_to_samples(-min(0, ms_a - ms_b), sr_a)\<close> zeros after A and
    \<open>ms_to_samples(max(0, ms_a - ms_b), sr_b)\<close> after B;
  \<^item> \<open>crop_both\<close> drops \<open>ms_to_samples(max(0, shift_ms), sr_a)\<close> samples from the start of A
    and \<open>ms_to_samples(-min(0, shift_ms), sr_b)\<close> from the start of B, then
    \<open>ms_to_samples(max(0, ms_a - ms_b), sr_a)\<close> from the end of A and
    \<open>ms_to_samples(-min(0, ms_a - ms_b), sr_b)\<close> from the end of B;
  \<^item> \<open>pad_and_crop_one_to_match_other\<close> leaves A as it is, moves the start of B by
    \<open>ms_to_samples(shift_ms, sr_b)\<close> samples (zeros in front when it is not negative,
    samples dropped otherwise) and its end by \<open>ms_to_samples(ms_a - ms_b, sr_b)\<close>.
\<close>

theorem ms_to_samples_truncates:
  "(\<bar>real_of_int (ms_to_samples ms sr)\<bar> \<le> \<bar>fmul (fdiv ms 1000) (int_to_float sr)\<bar>
    \<and> \<bar>fmul (fdiv ms 1000) (int_to_float sr)\<bar> < \<bar>real_of_int (ms_to_samples ms sr)\<bar> + 1
    \<and> 0 \<le> real_of_int (ms_to_samples ms sr) * fmul (fdiv ms 1000) (int_to_float sr))
   \<and> (pad_both audio_a audio_b sr_a sr_b shift_ms = Inr (out_a, out_b) \<longrightarrow>
        (\<exists>ms_a ms_b.
           samples_to_ms (ms_to_samples (- min 0 shift_ms) sr_a + int (length audio_a)) sr_a = Inr ms_a
         \<and> samples_to_ms (ms_to_samples (max 0 shift_ms) sr_b + int (length audio_b)) sr_b = Inr ms_b
         \<and> out_a = replicate (nat (ms_to_samples (- min 0 shift_ms) sr_a)) 0 @ audio_a
                     @ replicate (nat (ms_to_samples (- min 0 (fsub ms_a ms_b)) sr_a)) 0
         \<and> out_b = replicate (nat (ms_to_samples (max 0 shift_ms) sr_b)) 0 @ audio_b
                     @ replicate (nat (ms_to_samples (max 0 (fsub ms_a ms_b)) sr_b)) 0))
   \<and> (crop_both audio_a audio_b sr_a sr_b shift_ms = Inr (out_a, out_b) \<longrightarrow>
        (\<exists>a1 b1 ms_a ms_b.
           a1 = py_slice_from audio_a (ms_to_samples (max 0 shift_ms) sr_a)
         \<and> b1 = py_slice_from audio_b (ms_to_samples (- min 0 shift_ms) sr_b)
         \<and> samples_to_ms (int (length a1)) sr_a = Inr ms_a
         \<and> samples_to_ms (int (length b1)) sr_b = Inr ms_b
         \<and> out_a = (if 0 < ms_to_samples (max 0 (fsub ms_a ms_b)) sr_a
                     then py_slice_upto a1 (- ms_to_samples (max 0 (fsub ms_a ms_b)) sr_a) else a1)
         \<and> out_b = (if 0 < ms_to_samples (- min 0 (fsub ms_a ms_b)) sr_b
                     then py_slice_upto b1 (- ms_to_samples (- min 0 (fsub ms_a ms_b)) sr_b) else b1)))
   \<and> (pad_and_crop_one_to_match_other audio_a audio_b sr_a sr_b shift_ms = Inr (out_a, out_b) \<longrightarrow>
        out_a = audio_a
        \<and> (\<exists>b1 ms_a ms_b.
             b1 = (if ms_to_samples shift_ms sr_b < 0
                   then py_slice_from audio_b \<bar>ms_to_samples shift_ms sr_b\<bar>
                   else replicate (nat (ms_to_samples shift_ms sr_b)) 0 @ audio_b)
           \<and> samples_to_ms (int (length audio_a)) sr_a = Inr ms_a
           \<and> samples_to_ms (int (length b1)) sr_b = Inr ms_b
           \<and> out_b = (if ms_to_samples (fsub ms_a ms_b) sr_b < 0
                       then py_slice_upto b1 (- \<bar>ms_to_samples (fsub ms_a ms_b) sr_b\<bar>)
                       else b1 @ replicate (nat (ms_to_samples (fsub ms_a ms_b) sr_b)) 0)))"
proof (intro conjI impI)
  note t = py_int_trunc [of "fmul (fdiv ms 1000) (int_to_float sr)"]
  show "\<bar>real_of_int (ms_to_samples ms sr)\<bar> \<le> \<bar>fmul (fdiv ms 1000) (int_to_float sr)\<bar>"
    using t unfolding ms_to_samples_def sec_to_samples_def by blast
  show "\<bar>fmul (fdiv ms 1000) (int_to_float sr)\<bar> < \<bar>real_of_int (ms_to_samples ms sr)\<bar> + 1"
    using t unfolding ms_to_samples_def sec_to_samples_def by blast
  show "0 \<le> real_of_int (ms_to_samples ms sr) * fmul (fdiv ms 1000) (int_to_float sr)"
    using t unfolding ms_to_samples_def sec_to_samples_def by blast
next
  assume "pad_both audio_a audio_b sr_a sr_b shift_ms = Inr (out_a, out_b)"
  then show "\<exists>ms_a ms_b.
           samples_to_ms (ms_to_samples (- min 0 shift_ms) sr_a + int (length audio_a)) sr_a = Inr ms_a
         \<and> samples_to_ms (ms_to_samples (max 0 shift_ms) sr_b + int (length audio_b)) sr_b = Inr ms_b
         \<and> out_a = replicate (nat (ms_to_samples (- min 0 shift_ms) sr_a)) 0 @ audio_a
                     @ replicate (nat (ms_to_samples (- min 0 (fsub ms_a ms_b)) sr_a)) 0
         \<and> out_b = replicate (nat (ms_to_samples (max 0 shift_ms) sr_b)) 0 @ audio_b
                     @ replicate (nat (ms_to_samples (max 0 (fsub ms_a ms_b)) sr_b)) 0"
    by (rule pad_both_result)
next
  assume "crop_both audio_a audio_b sr_a sr_b shift_ms = Inr (out_a, out_b)"
  then show "\<exists>a1 b1 ms_a ms_b.
           a1 = py_slice_from audio_a (ms_to_samples (max 0 shift_ms) sr_a)
         \<and> b1 = py_slice_from audio_b (ms_to_samples (- min 0 shift_ms) sr_b)
         \<and> samples_to_ms (int (length a1)) sr_a = Inr ms_a
         \<and> samples_to_ms (int (length b1)) sr_b = Inr ms_b
         \<and> out_a = (if 0 < ms_to_samples (max 0 (fsub ms_a ms_b)) sr_a
                     then py_slice_upto a1 (- ms_to_samples (max 0 (fsub ms_a ms_b)) sr_a) else a1)
         \<and> out_b = (if 0 < ms_to_samples (- min 0 (fsub ms_a ms_b)) sr_b
                     then py_slice_upto b1 (- ms_to_samples (- min 0 (fsub ms_a ms_b)) sr_b) else b1)"
    by (rule crop_both_result)
next
  assume h: "pad_and_crop_one_to_match_other audio_a audio_b sr_a sr_b shift_ms = Inr (out_a, out_b)"
  show "out_a = audio_a" using pad_and_crop_result [OF h] by (rule conjunct1)
  show "\<exists>b1 ms_a ms_b.
             b1 = (if ms_to_samples shift_ms sr_b < 0
                   then py_slice_from audio_b \<bar>ms_to_samples shift_ms sr_b\<bar>
                   else replicate (nat (ms_to_samples shift_ms sr_b)) 0 @ audio_b)
           \<and> samples_to_ms (int (length audio_a)) sr_a = Inr ms_a
           \<and> samples_to_ms (int (length b1)) sr_b = Inr ms_b
           \<and> out_b = (if ms_to_samples (fsub ms_a ms_b) sr_b < 0
                       then py_slice_upto b1 (- \<bar>ms_to_samples (fsub ms_a ms_b) sr_b\<bar>)
                       else b1 @ replicate (nat (ms_to_samples (fsub ms_a ms_b) sr_b)) 0)"
    using pad_and_crop_result [OF h] by (rule conjunct2)
qed

text \<open>
  The three transforms at 7/8 ms, which is 1.75 samples at 2000 Hz and 2.625 samples at
  3000 Hz: the counts are 1 and 2. The end displacements are -5/6 ms, 5/6 ms and -5/6 ms
  up to rounding, 1.67 samples at 2000 Hz: one zero after A, one sample off the end of
  A, one sample off the end of B.
\<close>

theorem ms_to_samples_truncates_witness:
  "ms_to_samples (7/8) 2000 = 1 \<and> ms_to_samples (7/8) 3000 = 2
   \<and> pad_both [1, 2, 3] [4, 5, 6, 7, 8] 2000 3000 (7/8) = Inr ([1, 2, 3, 0], [0, 0, 4, 5, 6, 7, 8])
   \<and> (\<exists>ms_a ms_b.
         samples_to_ms (ms_to_samples (- min 0 (7/8)) 2000 + int (length [1, 2, 3 :: real])) 2000 = Inr ms_a
       \<and> samples_to_ms (ms_to_samples (max 0 (7/8)) 3000 + int (length [4, 5, 6, 7, 8 :: real])) 3000 = Inr ms_b
       \<and> [1, 2, 3, 0] = replicate (nat (ms_to_samples (- min 0 (7/8)) 2000)) 0 @ [1, 2, 3 :: real]
                   @ replicate (nat (ms_to_samples (- min 0 (fsub ms_a ms_b)) 2000)) 0
       \<and> [0, 0, 4, 5, 6, 7, 8] = replicate (nat (ms_to_samples (max 0 (7/8)) 3000)) 0 @ [4, 5, 6, 7, 8 :: real]
                   @ replicate (nat (ms_to_samples (max 0 (fsub ms_a ms_b)) 3000)) 0)
   \<and> crop_both [1, 2, 3, 4, 5, 6] [4, 5, 6, 7, 8] 2000 3000 (7/8) = Inr ([2, 3, 4, 5], [4, 5, 6, 7, 8])
   \<and> (\<exists>a1 b1 ms_a ms_b.
         a1 = py_slice_from [1, 2, 3, 4, 5, 6 :: real] (ms_to_samples (max 0 (7/8)) 2000)
       \<and> b1 = py_slice_from [4, 5, 6, 7, 8 :: real] (ms_to_samples (- min 0 (7/8)) 3000)
       \<and> samples_to_ms (int (length a1)) 2000 = Inr ms_a
       \<and> samples_to_ms (int (length b1)) 3000 = Inr ms_b
       \<and> [2, 3, 4, 5] = (if 0 < ms_to_samples (max 0 (fsub ms_a ms_b)) 2000
                   then py_slice_upto a1 (- ms_to_samples (max 0 (fsub ms_a ms_b)) 2000) else a1)
       \<and> [4, 5, 6, 7, 8] = (if 0 < ms_to_samples (- min 0 (fsub ms_a ms_b)) 3000
                   then py_slice_upto b1 (- ms_to_samples (- min 0 (fsub ms_a ms_b)) 3000) else b1))
   \<and> pad_and_crop_one_to_match_other [1, 2, 3, 4, 5] [6, 7, 8, 9] 3000 2000 (7/8)
        = Inr ([1, 2, 3, 4, 5], [0, 6, 7, 8])
   \<and> (\<exists>b1 ms_a ms_b.
         b1 = (if ms_to_samples (7/8) 2000 < 0
               then py_slice_from [6, 7, 8, 9 :: real] \<bar>ms_to_samples (7/8) 2000\<bar>
               else replicate (nat (ms_to_samples (7/8) 2000)) 0 @ [6, 7, 8, 9])
       \<and> samples_to_ms (int (length [1, 2, 3, 4, 5 :: real])) 3000 = Inr ms_a
       \<and> samples_to_ms (int (length b1)) 2000 = Inr ms_b
       \<and> [0, 6, 7, 8] = (if ms_to_samples (fsub ms_a ms_b) 2000 < 0
                   then py_slice_upto b1 (- \<bar>ms_to_samples (fsub ms_a ms_b) 2000\<bar>)
                   else b1 @ replicate (nat (ms_to_samples (fsub ms_a ms_b) 2000)) 0))"
proof -
  have m: "ms_to_samples (7/8) 2000 = 1" "ms_to_samples (7/8) 3000 = 2" by code_simp+
  have p: "pad_both [1, 2, 3] [4, 5, 6, 7, 8] 2000 3000 (7/8) = Inr ([1, 2, 3, 0], [0, 0, 4, 5, 6, 7, 8])"
    by code_simp
  have c: "crop_both [1, 2, 3, 4, 5, 6] [4, 5, 6, 7, 8] 2000 3000 (7/8) = Inr ([2, 3, 4, 5], [4, 5, 6, 7, 8])"
    by code_simp
  have q: "pad_and_crop_one_to_match_other [1, 2, 3, 4, 5] [6, 7, 8, 9] 3000 2000 (7/8)
        = Inr ([1, 2, 3, 4, 5], [0, 6, 7, 8])"
    by code_simp
  note P = ms_to_samples_truncates [where audio_a = "[1, 2, 3]" and audio_b = "[4, 5, 6, 7, 8]"
      and sr_a = 2000 and sr_b = 3000 and shift_ms = "7/8"
      and out_a = "[1, 2, 3, 0]" and out_b = "[0, 0, 4, 5, 6, 7, 8]",
      THEN conjunct2, THEN conjunct1, THEN mp, OF p]
  note C = ms_to_samples_truncates [where audio_a = "[1, 2, 3, 4, 5, 6]" and audio_b = "[4, 5, 6, 7, 8]"
      and sr_a = 2000 and sr_b = 3000 and shift_ms = "7/8"
      and out_a = "[2, 3, 4, 5]" and out_b = "[4, 5, 6, 7, 8]",
      THEN conjunct2, THEN conjunct2, THEN conjunct1, THEN mp, OF c]
  note Q = ms_to_samples_truncates [where audio_a = "[1, 2, 3, 4, 5]" and audio_b = "[6, 7, 8, 9]"
      and sr_a = 3000 and sr_b = 2000 and shift_ms = "7/8"
      and out_a = "[1, 2, 3, 4, 5]" and out_b = "[0, 6, 7, 8]",
      THEN conjunct2, THEN conjunct2, THEN conjunct2, THEN mp, OF q, THEN conjunct2]
  show ?thesis
    by (intro conjI) (rule m p c q P C Q)+
qed

text \<open>
  Claim C9 as stated fails: 1.75 ms at 1000 Hz is 1.75 samples, which rounds to 2, and
  \<open>ms_to_samples\<close> returns 1.
\<close>

theorem ms_to_samples_round_counterexample:
  "ms_to_samples (7/4) 1000 = 1
   \<and> round (fmul (fdiv (7/4) 1000) (int_to_float 1000)) = 2"
proof -
  have e: "fmul (fdiv (7/4) 1000) (int_to_float 1000) = 7/4" by code_simp
  have m: "ms_to_samples (7/4) 1000 = 1" by code_simp
  have r: "round (7/4 :: real) = 2" by (simp add: round_def)
  show ?thesis unfolding e using m r by blast
qed

section \<open>The minimum-overlap constraint\<close>


text \<open>
  Claim C2 at \<open>n = 0\<close>: with \<open>min_overlap_sec = 0.0078125\<close> and the default hop of 10 ms the
  frame count is \<open>int(7.8125 / 10) = 0\<close>. \<open>corr[:0] = 0\<close> changes nothing, but \<open>corr[-0:]\<close>
  is \<open>corr[0:]\<close>, the whole sequence, so every entry is zeroed where the claim zeroes none.
\<close>

theorem constrain_min_overlap_zero_frames:
  "sec_to_frames (1/128) 10 = Inr 0
   \<and> constrain_min_overlap [Fin 3, Fin 1, Fin 2] (1/128) 10 = Inr [Fin 0, Fin 0, Fin 0]"
  by code_simp

section \<open>Output lengths of pad_both and crop_both\<close>

lemma pad_both_unfold:
  assumes "sr_a \<noteq> 0" "sr_b \<noteq> 0"
    and "0 \<le> ms_to_samples (- min 0 shift_ms) sr_a" "0 \<le> ms_to_samples (max 0 shift_ms) sr_b"
  shows "pad_both audio_a audio_b sr_a sr_b shift_ms =
     (let sa = ms_to_samples (- min 0 shift_ms) sr_a;
          sb = ms_to_samples (max 0 shift_ms) sr_b;
          d = fsub (fmul 1000 (int_truediv (sa + int (length audio_a)) sr_a))
                   (fmul 1000 (int_truediv (sb + int (length audio_b)) sr_b));
          ea = ms_to_samples (- min 0 d) sr_a;
          eb = ms_to_samples (max 0 d) sr_b
      in if ea < 0 \<or> eb < 0 then Inl (ValueError ''zeros: negative dimensions are not allowed'')
         else Inr (replicate (nat sa) 0 @ audio_a @ replicate (nat ea) 0,
                   replicate (nat sb) 0 @ audio_b @ replicate (nat eb) 0))"
  using assms
  unfolding pad_both_def Let_def np_zeros_def samples_to_ms_def samples_to_sec_def
  by (auto simp: nat_add_distrib)

lemma crop_both_unfold:
  assumes "sr_a \<noteq> 0" "sr_b \<noteq> 0"
  shows "crop_both audio_a audio_b sr_a sr_b shift_ms =
     (let a1 = py_slice_from audio_a (ms_to_samples (max 0 shift_ms) sr_a);
          b1 = py_slice_from audio_b (ms_to_samples (- min 0 shift_ms) sr_b);
          d = fsub (fmul 1000 (int_truediv (int (length a1)) sr_a))
                   (fmul 1000 (int_truediv (int (length b1)) sr_b));
          ea = ms_to_samples (max 0 d) sr_a;
          eb = ms_to_samples (- min 0 d) sr_b
      in Inr (if 0 < ea then py_slice_upto a1 (- ea) else a1,
              if 0 < eb then py_slice_upto b1 (- eb) else b1))"
  using assms
  unfolding crop_both_def Let_def samples_to_ms_def samples_to_sec_def
  by simp

lemma ms_zero: "ms_to_samples 0 sr = 0"
  unfolding ms_to_samples_def sec_to_samples_def fdiv_def fmul_def float64_def py_int_def by simp

lemma end_ms_44100:
  "ms_to_samples (- min 0 (fsub (fmul 1000 (int_truediv 4410 44100)) (fmul 1000 (int_truediv 35280 44100)))) 44100 = 30869"
  "ms_to_samples (max 0 (fsub (fmul 1000 (int_truediv 4410 44100)) (fmul 1000 (int_truediv 35280 44100)))) 44100 = 0"
  by code_simp+

text \<open>
  Claim C3 at two inputs, both at 44100 Hz with no shift. For two and for three samples
  the end displacement \<open>1000 * (2 / 44100) - 1000 * (3 / 44100)\<close> converts back, in
  binary64, to slightly less than one sample; \<open>int\<close> truncates it to 0, A gets no
  trailing silence, and the outputs have lengths 2 and 3. For a tenth of a second
  (4410 samples) and eight tenths (35280 samples), A is padded with 30869 samples
  instead of 30870, and the outputs have lengths 35279 and 35280.
\<close>

theorem pad_both_unequal_lengths:
  "pad_both [1/2, 1/2] [1/2, 1/2, 1/2] 44100 44100 0 = Inr ([1/2, 1/2], [1/2, 1/2, 1/2])
   \<and> pad_both (replicate 4410 (1/2)) (replicate 35280 (1/2)) 44100 44100 0
        = Inr (replicate 4410 (1/2) @ replicate 30869 0, replicate 35280 (1/2))"
proof -
  have a: "pad_both [1/2, 1/2] [1/2, 1/2, 1/2] 44100 44100 0 = Inr ([1/2, 1/2], [1/2, 1/2, 1/2])"
    by code_simp
  have b: "pad_both (replicate 4410 (1/2)) (replicate 35280 (1/2)) 44100 44100 0
        = Inr (replicate 4410 (1/2) @ replicate 30869 0, replicate 35280 (1/2))"
    by (subst pad_both_unfold) (simp_all add: ms_zero end_ms_44100 Let_def)
  from a b show ?thesis ..
qed

text \<open>
  Claim C6 at the same inputs: for two and three samples the trailing excess of B is
  computed as 0 samples and nothing is cropped; for 4410 and 35280 samples B is cropped
  by 30869 samples instead of 30870, and the outputs have lengths 4410 and 4411.
\<close>

theorem crop_both_unequal_lengths:
  "crop_both [1/2, 1/2] [1/2, 1/2, 1/2] 44100 44100 0 = Inr ([1/2, 1/2], [1/2, 1/2, 1/2])
   \<and> crop_both (replicate 4410 (1/2)) (replicate 35280 (1/2)) 44100 44100 0
        = Inr (replicate 4410 (1/2), replicate 4411 (1/2))"
proof -
  have a: "crop_both [1/2, 1/2] [1/2, 1/2, 1/2] 44100 44100 0 = Inr ([1/2, 1/2], [1/2, 1/2, 1/2])"
    by code_simp
  have b: "crop_both (replicate 4410 (1/2)) (replicate 35280 (1/2)) 44100 44100 0
        = Inr (replicate 4410 (1/2), replicate 4411 (1/2))"
    by (subst crop_both_unfold)
       (simp_all add: ms_zero end_ms_44100 Let_def py_slice_from_def py_slice_upto_def
          norm_index_def)
  from a b show ?thesis ..
qed

section \<open>The envelope\<close>

lemma range_count_iff:
  fixes a h :: int
  assumes "0 < h"
  shows "(int k < (a + h - 1) div h) = (int k * h < a)"
proof -
  have "(int k < (a + h - 1) div h) = (int k + 1 \<le> (a + h - 1) div h)" by linarith
  also have "\<dots> = (int k + 1 \<le> \<lfloor>real_of_int (a + h - 1) / real_of_int h\<rfloor>)"
    by (simp only: floor_divide_of_int_eq)
  also have "\<dots> = (real_of_int (int k + 1) \<le> real_of_int (a + h - 1) / real_of_int h)"
    by (rule le_floor_iff)
  also have "\<dots> = (real_of_int (int k + 1) * real_of_int h \<le> real_of_int (a + h - 1))"
    using assms by (simp add: pos_le_divide_eq)
  also have "\<dots> = ((int k + 1) * h \<le> a + h - 1)"
    by (simp only: of_int_mult [symmetric] of_int_le_iff)
  also have "\<dots> = (int k * h < a)" by (auto simp: algebra_simps)
  finally show ?thesis .
qed

lemma py_slice_window:
  assumes "0 \<le> i" "0 \<le> w" "nat i \<le> length xs"
  shows "py_slice xs i (i + w) = take (nat w) (drop (nat i) xs)"
  using assms unfolding py_slice_def Let_def norm_index_def
  by (auto simp: min_def nat_add_distrib)

lemma envelope_frames:
  assumes h: "0 < ms_to_samples hop_length_ms sr" and w: "0 \<le> ms_to_samples win_length_ms sr"
  shows "audio_to_rms_envelope audio sr win_length_ms hop_length_ms =
     Inr (map (\<lambda>k. rms (take (nat (ms_to_samples win_length_ms sr))
                          (drop (k * nat (ms_to_samples hop_length_ms sr)) audio)))
            [0 ..< nat ((int (length audio) - ms_to_samples win_length_ms sr
                          + ms_to_samples hop_length_ms sr - 1) div ms_to_samples hop_length_ms sr)])"
proof -
  let ?h = "ms_to_samples hop_length_ms sr" and ?w = "ms_to_samples win_length_ms sr"
  let ?c = "nat ((int (length audio) - ?w + ?h - 1) div ?h)"
  have sl: "py_slice audio (0 + int k * ?h) (0 + int k * ?h + ?w) = take (nat ?w) (drop (k * nat ?h) audio)"
    if "k < ?c" for k
  proof -
    from that have "int k < (int (length audio) - ?w + ?h - 1) div ?h" by linarith
    then have lt: "int k * ?h < int (length audio) - ?w" using range_count_iff [OF h] by simp
    have nn: "0 \<le> int k * ?h" using h by simp
    have e: "nat (int k * ?h) = k * nat ?h" using h by (simp add: nat_mult_distrib)
    have "nat (int k * ?h) \<le> length audio" using lt w nn by linarith
    from py_slice_window [OF nn w this] show ?thesis by (simp add: e)
  qed
  show ?thesis
    using h sl unfolding audio_to_rms_envelope_def Let_def py_range_def
    by auto
qed

lemma envelope_length:
  assumes h: "0 < ms_to_samples hop_length_ms sr"
  shows "\<exists>env. audio_to_rms_envelope audio sr win_length_ms hop_length_ms = Inr env
     \<and> length env = nat ((int (length audio) - ms_to_samples win_length_ms sr
                          + ms_to_samples hop_length_ms sr - 1) div ms_to_samples hop_length_ms sr)"
  using h unfolding audio_to_rms_envelope_def Let_def py_range_def by simp

lemma envelope_short_empty:
  assumes h: "0 < ms_to_samples hop_length_ms sr"
    and s: "int (length audio) \<le> ms_to_samples win_length_ms sr"
  shows "audio_to_rms_envelope audio sr win_length_ms hop_length_ms = Inr []"
proof -
  let ?h = "ms_to_samples hop_length_ms sr" and ?w = "ms_to_samples win_length_ms sr"
  have "int (length audio) - ?w + ?h - 1 \<le> ?h - 1" using s by linarith
  then have "(int (length audio) - ?w + ?h - 1) div ?h \<le> (?h - 1) div ?h"
    using h by (rule zdiv_mono1)
  moreover have "(?h - 1) div ?h = 0" using h by (simp add: div_pos_pos_trivial)
  ultimately have "(int (length audio) - ?w + ?h - 1) div ?h \<le> 0" by simp
  then show ?thesis
    using h unfolding audio_to_rms_envelope_def Let_def py_range_def by simp
qed

lemma ms_16000: "ms_to_samples 25 16000 = 400" "ms_to_samples 10 16000 = 160"
  by code_simp+

lemma rms_ones: "0 < n \<Longrightarrow> rms (replicate n 1) = Fin 1"
  by (simp add: rms_def np_mean_def sum_list_replicate)

text \<open>
  Claim C4, as the code has it. The starting indices come from
  \<open>range(0, len(audio) - win_length, hop_length)\<close>, whose stop is exclusive: a frame is
  emitted for \<open>i = 0, h, 2h, ...\<close> while \<open>i + w < n\<close>, strictly. The envelope has
  \<open>ceil((n - w) / h)\<close> frames, none when \<open>n \<le> w\<close>, and frame \<open>k\<close> is the RMS of the \<open>w\<close>
  samples from \<open>k * h\<close> on.
\<close>

theorem envelope_frame_count:
  assumes "ms_to_samples win_length_ms sr = w" "ms_to_samples hop_length_ms sr = h"
    and "1 \<le> w" "1 \<le> h"
  shows "\<exists>env. audio_to_rms_envelope audio sr win_length_ms hop_length_ms = Inr env
     \<and> length env = nat \<lceil>(real (length audio) - real_of_int w) / real_of_int h\<rceil>
     \<and> (\<forall>k. (k < length env) = (int k * h + w < int (length audio)))
     \<and> (\<forall>k < length env. env ! k = rms (take (nat w) (drop (k * nat h) audio)))"
proof -
  let ?c = "nat ((int (length audio) - w + h - 1) div h)"
  let ?env = "map (\<lambda>k. rms (take (nat w) (drop (k * nat h) audio))) [0 ..< ?c]"
  have h0: "0 < h" and w0: "0 \<le> w" using assms by simp_all
  have e: "audio_to_rms_envelope audio sr win_length_ms hop_length_ms = Inr ?env"
    using envelope_frames [of hop_length_ms sr win_length_ms audio] h0 w0
    by (simp add: assms(1,2))
  have k: "(k < ?c) = (int k * h + w < int (length audio))" for k
  proof -
    have "(k < ?c) = (int k < (int (length audio) - w + h - 1) div h)" by linarith
    also have "\<dots> = (int k * h < int (length audio) - w)" by (rule range_count_iff [OF h0])
    finally show ?thesis by linarith
  qed
  have c: "(int (length audio) - w + h - 1) div h
             = \<lceil>(real (length audio) - real_of_int w) / real_of_int h\<rceil>"
  proof -
    define a where "a = int (length audio) - w"
    define q where "q = (a + h - 1) div h"
    define r where "r = (a + h - 1) mod h"
    have m: "q * h + r = a + h - 1" unfolding q_def r_def by simp
    have r0: "0 \<le> r" and r1: "r < h" using h0 unfolding r_def by simp_all
    have d: "(q - 1) * h = q * h - h" by (simp add: algebra_simps)
    have "(q - 1) * h < a" unfolding d using m r0 by linarith
    then have "real_of_int ((q - 1) * h) < real_of_int a" by (simp only: of_int_less_iff)
    then have lo: "real_of_int q - 1 < real_of_int a / real_of_int h"
      using h0 by (simp add: pos_less_divide_eq)
    have "a \<le> q * h" using m r1 by linarith
    then have "real_of_int a \<le> real_of_int (q * h)" by (simp only: of_int_le_iff)
    then have hi: "real_of_int a / real_of_int h \<le> real_of_int q"
      using h0 by (simp add: pos_divide_le_eq)
    have "\<lceil>real_of_int a / real_of_int h\<rceil> = q" using lo hi by (rule ceiling_unique)
    then show ?thesis unfolding q_def a_def by simp
  qed
  show ?thesis
    apply (rule exI [of _ ?env])
    using e k c by simp
qed

theorem envelope_frame_count_witness:
  "ms_to_samples 2 1000 = 2 \<and> ms_to_samples 1 1000 = 1 \<and> (1::int) \<le> 2 \<and> (1::int) \<le> 1
   \<and> (\<exists>env. audio_to_rms_envelope [1, 2, 3, 4, 5] 1000 2 1 = Inr env \<and> length env = 3)"
proof -
  have w: "ms_to_samples 2 1000 = 2" and h: "ms_to_samples 1 1000 = 1" by code_simp+
  from envelope_frame_count [OF w h, of "[1, 2, 3, 4, 5]"] w h
  show ?thesis by auto
qed

text \<open>
  Claim C4 as stated fails at 16 kHz with the default 25 ms window (400 samples) and
  10 ms hop (160 samples): a waveform of exactly 400 samples has an empty envelope, not
  one frame, and a waveform of 405 samples has one frame where \<open>floor(5 / 160)\<close> is 0.
\<close>

theorem envelope_frame_count_counterexample:
  "audio_to_rms_envelope (replicate 400 1) 16000 25 10 = Inr []
   \<and> audio_to_rms_envelope (replicate 405 1) 16000 25 10 = Inr [Fin 1]"
proof -
  have a: "audio_to_rms_envelope (replicate 400 1) 16000 25 10 = Inr []"
    by (rule envelope_short_empty) (simp_all add: ms_16000)
  have b: "audio_to_rms_envelope (replicate 405 1) 16000 25 10 = Inr [Fin 1]"
    by (subst envelope_frames) (simp_all add: ms_16000 rms_ones)
  from a b show ?thesis by simp
qed

section \<open>Inputs shorter than the window\<close>

lemma normalized_corr_empty:
  "rms_a = [] \<or> rms_b = [] \<Longrightarrow>
     normalized_corr rms_a rms_b = Inl (ValueError ''correlate: empty input'')"
  unfolding normalized_corr_def correlate_def by auto

lemma get_shift_ms_empty_envelope:
  assumes "audio_to_rms_envelope audio_a sr_a win_length_ms hop_length_ms = Inr ea"
    and "audio_to_rms_envelope audio_b sr_b win_length_ms hop_length_ms = Inr eb"
    and "ea = [] \<or> eb = []"
  shows "get_shift_ms audio_a audio_b sr_a sr_b win_length_ms hop_length_ms
           min_overlap_sec max_shift_sec = Inl (ValueError ''correlate: empty input'')"
  using normalized_corr_empty [OF assms(3)] unfolding get_shift_ms_def
  by (simp add: assms(1,2))

text \<open>
  Claim C1, as the code has it. \<open>get_shift_ms\<close> has no check of its own. When a waveform
  has no more samples than the window (and the hop is at least one sample, so that
  \<open>range\<close> accepts it), its envelope is empty and the call fails inside the correlation
  routine, with the library's \<open>ValueError\<close>; that is not an error the repository raises,
  and no value is returned.
\<close>

theorem get_shift_ms_short_input:
  assumes "0 < ms_to_samples hop_length_ms sr_a" "0 < ms_to_samples hop_length_ms sr_b"
    and "int (length audio_a) \<le> ms_to_samples win_length_ms sr_a
         \<or> int (length audio_b) \<le> ms_to_samples win_length_ms sr_b"
  shows "get_shift_ms audio_a audio_b sr_a sr_b win_length_ms hop_length_ms
           min_overlap_sec max_shift_sec = Inl (ValueError ''correlate: empty input'')
       \<and> \<not> raised_by_shign (ValueError ''correlate: empty input'')"
proof -
  obtain ea where ea: "audio_to_rms_envelope audio_a sr_a win_length_ms hop_length_ms = Inr ea"
    using envelope_length [OF assms(1)] by blast
  obtain eb where eb: "audio_to_rms_envelope audio_b sr_b win_length_ms hop_length_ms = Inr eb"
    using envelope_length [OF assms(2)] by blast
  have "ea = [] \<or> eb = []"
    using assms(3) envelope_short_empty [OF assms(1)] envelope_short_empty [OF assms(2)] ea eb
    by fastforce
  from get_shift_ms_empty_envelope [OF ea eb this] show ?thesis by simp
qed

theorem get_shift_ms_short_input_witness:
  "0 < ms_to_samples 10 16000
   \<and> int (length [1, 1, 1 :: real]) \<le> ms_to_samples 25 16000
   \<and> get_shift_ms [1, 1, 1] (replicate 48000 1) 16000 16000 25 10 1 30
        = Inl (ValueError ''correlate: empty input'')"
  using get_shift_ms_short_input [of 10 16000 16000 "[1, 1, 1]" 25 "replicate 48000 1" 1 30]
  by (simp add: ms_16000)

lemma get_shift_ms_short_3s:
  "get_shift_ms (replicate 399 1) (replicate 48000 1) 16000 16000 25 10 1 30
     = Inl (ValueError ''correlate: empty input'')"
proof -
  have a: "audio_to_rms_envelope (replicate 399 1) 16000 25 10 = Inr []"
    by (rule envelope_short_empty) (simp_all add: ms_16000)
  obtain eb where b: "audio_to_rms_envelope (replicate 48000 1) 16000 25 10 = Inr eb"
    using envelope_length [of 10 16000 "replicate 48000 1" 25] by (auto simp: ms_16000)
  from get_shift_ms_empty_envelope [OF a b] show ?thesis by simp
qed

text \<open>
  Claim C1 as stated fails: a waveform of 399 samples at 16 kHz against one of three
  seconds makes \<open>get_shift_ms\<close> fail with the correlation routine's \<open>ValueError\<close>, which
  is not an error raised by the repository's own code.
\<close>

theorem get_shift_ms_short_input_counterexample:
  "get_shift_ms (replicate 399 1) (replicate 48000 1) 16000 16000 25 10 1 30
     = Inl (ValueError ''correlate: empty input'')
   \<and> \<not> raised_by_shign (ValueError ''correlate: empty input'')"
  using get_shift_ms_short_3s by simp

section \<open>The correlation and its normalisation\<close>

lemma foldl_np_add_fin: "foldl np_add (Fin a) (map Fin rs) = Fin (a + sum_list rs)"
  by (induction rs arbitrary: a) (simp_all add: add.assoc)

lemma np_sum_fin: "np_sum (map Fin rs) = Fin (sum_list rs)"
  unfolding np_sum_def by (simp add: foldl_np_add_fin)

lemma all_fin_map: "(\<forall>x\<in>set l. is_fin x) \<Longrightarrow> \<exists>xs. l = map Fin xs"
proof (induction l)
  case Nil
  then show ?case by simp
next
  case (Cons x l)
  then obtain xs where xs: "l = map Fin xs" by auto
  from Cons.prems obtain r where "x = Fin r" by (cases x) auto
  then have "x # l = map Fin (r # xs)" using xs by simp
  then show ?case by (rule exI)
qed

lemma correlate_fin:
  assumes "xs \<noteq> []" "ys \<noteq> []"
  shows "correlate (map Fin xs) (map Fin ys)
           = Inr (map (\<lambda>k. Fin (xcorr xs ys k)) [0 ..< length xs + length ys - 1])"
proof -
  have inner: "np_sum (map (\<lambda>l. np_mul (map Fin xs ! l) (map Fin ys ! (l + length (map Fin ys) - 1 - k)))
                  [k + 1 - length (map Fin ys) ..< min (length (map Fin xs)) (k + 1)])
        = Fin (xcorr xs ys k)" for k
  proof -
    have "map (\<lambda>l. np_mul (map Fin xs ! l) (map Fin ys ! (l + length (map Fin ys) - 1 - k)))
                  [k + 1 - length (map Fin ys) ..< min (length (map Fin xs)) (k + 1)]
        = map Fin (map (\<lambda>l. xs ! l * ys ! (l + length ys - 1 - k))
                                [k + 1 - length ys ..< min (length xs) (k + 1)])"
      using assms by (auto simp: nth_map)
    then show ?thesis unfolding xcorr_def by (simp only: np_sum_fin)
  qed
  show ?thesis unfolding correlate_def using assms by (simp only: inner) simp
qed

lemma overlap_pos: "0 < m \<Longrightarrow> 0 < n \<Longrightarrow> k < m + n - 1 \<Longrightarrow> 1 \<le> overlap m n k"
  unfolding overlap_def by (auto simp: min_def)

lemma xcorr_ones: "xcorr (replicate m 1) (replicate n 1) k = real (overlap m n k)"
proof -
  have "map (\<lambda>l. replicate m (1::real) ! l * replicate n 1 ! (l + length (replicate n (1::real)) - 1 - k))
            [k + 1 - length (replicate n (1::real)) ..< min (length (replicate m (1::real))) (k + 1)]
      = map (\<lambda>l. 1) [k + 1 - n ..< min m (k + 1)]"
    by (auto simp: nth_replicate)
  then show ?thesis unfolding xcorr_def overlap_def
    by (simp only: ) (simp add: sum_list_triv)
qed

lemma correlate_ones:
  assumes "0 < m" "0 < n"
  shows "correlate (replicate m (Fin 1)) (replicate n (Fin 1))
           = Inr (map (\<lambda>k. Fin (real (overlap m n k))) [0 ..< m + n - 1])"
proof -
  have "correlate (map Fin (replicate m 1)) (map Fin (replicate n 1))
          = Inr (map (\<lambda>k. Fin (xcorr (replicate m 1) (replicate n 1) k))
                   [0 ..< length (replicate m (1::real)) + length (replicate n (1::real)) - 1])"
    by (rule correlate_fin) (use assms in auto)
  then show ?thesis by (simp add: xcorr_ones)
qed

lemma normalized_corr_fin:
  assumes "xs \<noteq> []" "ys \<noteq> []"
  shows "normalized_corr (map Fin xs) (map Fin ys)
     = Inr (map (\<lambda>k. Fin (xcorr xs ys k / real (overlap (length xs) (length ys) k)))
              [0 ..< length xs + length ys - 1])"
proof -
  have m: "0 < length xs" "0 < length ys" using assms by simp_all
  have d: "correlate (ones_like (map Fin xs)) (ones_like (map Fin ys))
          = Inr (map (\<lambda>k. Fin (real (overlap (length xs) (length ys) k)))
                   [0 ..< length xs + length ys - 1])"
    unfolding ones_like_def using correlate_ones [OF m] by simp
  have z: "map2 np_div (map (\<lambda>k. Fin (xcorr xs ys k)) [0 ..< length xs + length ys - 1])
             (map (\<lambda>k. Fin (real (overlap (length xs) (length ys) k))) [0 ..< length xs + length ys - 1])
      = map (\<lambda>k. Fin (xcorr xs ys k / real (overlap (length xs) (length ys) k)))
              [0 ..< length xs + length ys - 1]"
  proof (rule nth_equalityI)
    show "length (map2 np_div (map (\<lambda>k. Fin (xcorr xs ys k)) [0 ..< length xs + length ys - 1])
             (map (\<lambda>k. Fin (real (overlap (length xs) (length ys) k))) [0 ..< length xs + length ys - 1]))
      = length (map (\<lambda>k. Fin (xcorr xs ys k / real (overlap (length xs) (length ys) k)))
              [0 ..< length xs + length ys - 1])" by simp
  next
    fix i
    assume "i < length (map2 np_div (map (\<lambda>k. Fin (xcorr xs ys k)) [0 ..< length xs + length ys - 1])
             (map (\<lambda>k. Fin (real (overlap (length xs) (length ys) k))) [0 ..< length xs + length ys - 1]))"
    then have i: "i < length xs + length ys - 1" by simp
    from overlap_pos [OF m i] have "real (overlap (length xs) (length ys) i) \<noteq> 0" by simp
    then show "map2 np_div (map (\<lambda>k. Fin (xcorr xs ys k)) [0 ..< length xs + length ys - 1])
             (map (\<lambda>k. Fin (real (overlap (length xs) (length ys) k))) [0 ..< length xs + length ys - 1]) ! i
      = map (\<lambda>k. Fin (xcorr xs ys k / real (overlap (length xs) (length ys) k)))
              [0 ..< length xs + length ys - 1] ! i"
      using i by simp
  qed
  show ?thesis unfolding normalized_corr_def
    by (simp only: correlate_fin [OF assms] d sum.case z)
qed

lemma normalized_corr_ones:
  assumes "0 < m"
  shows "normalized_corr (replicate m (Fin 1)) (replicate m (Fin 1)) = Inr (replicate (2 * m - 1) (Fin 1))"
proof -
  have "normalized_corr (map Fin (replicate m 1)) (map Fin (replicate m 1))
     = Inr (map (\<lambda>k. Fin (xcorr (replicate m 1) (replicate m 1) k / real (overlap (length (replicate m (1::real))) (length (replicate m (1::real))) k)))
              [0 ..< length (replicate m (1::real)) + length (replicate m (1::real)) - 1])"
    by (rule normalized_corr_fin) (use assms in auto)
  moreover have "map (\<lambda>k. Fin (xcorr (replicate m 1) (replicate m 1) k / real (overlap m m k))) [0 ..< m + m - 1]
      = replicate (2 * m - 1) (Fin 1)"
  proof (rule nth_equalityI)
    show "length (map (\<lambda>k. Fin (xcorr (replicate m 1) (replicate m 1) k / real (overlap m m k))) [0 ..< m + m - 1])
      = length (replicate (2 * m - 1) (Fin 1))" by simp
  next
    fix i assume "i < length (map (\<lambda>k. Fin (xcorr (replicate m 1) (replicate m 1) k / real (overlap m m k))) [0 ..< m + m - 1])"
    then have i: "i < m + m - 1" by simp
    from overlap_pos [OF assms assms i] have "real (overlap m m i) \<noteq> 0" by simp
    then show "map (\<lambda>k. Fin (xcorr (replicate m 1) (replicate m 1) k / real (overlap m m k))) [0 ..< m + m - 1] ! i
      = replicate (2 * m - 1) (Fin 1) ! i"
      using i by (simp add: xcorr_ones)
  qed
  ultimately show ?thesis by simp
qed

lemma normalized_corr_length:
  assumes "normalized_corr rms_a rms_b = Inr corr"
  shows "length corr = length rms_a + length rms_b - 1"
  using assms unfolding normalized_corr_def correlate_def ones_like_def
  by (auto split: sum.splits if_splits)

text \<open>
  Claim C10. For two non-empty envelopes of lengths \<open>m\<close> and \<open>n\<close> the overlap-count
  sequence, the full correlation of two all-ones sequences, has the value
  \<open>overlap m n k\<close> at index \<open>k\<close>, which is at least 1 at every index from 0 to
  \<open>m + n - 2\<close>, both ends included. So no division of the normalisation is by zero, and
  when the envelopes' entries are finite every entry of the normalised correlation is.
\<close>

theorem overlap_count_positive:
  assumes "rms_a \<noteq> []" "rms_b \<noteq> []"
  shows "correlate (ones_like rms_a) (ones_like rms_b)
           = Inr (map (\<lambda>k. Fin (real (overlap (length rms_a) (length rms_b) k)))
                    [0 ..< length rms_a + length rms_b - 1])
     \<and> (\<forall>k < length rms_a + length rms_b - 1. 1 \<le> overlap (length rms_a) (length rms_b) k)
     \<and> ((\<forall>x\<in>set rms_a. is_fin x) \<and> (\<forall>x\<in>set rms_b. is_fin x) \<longrightarrow>
          (\<exists>corr. normalized_corr rms_a rms_b = Inr corr
             \<and> length corr = length rms_a + length rms_b - 1
             \<and> (\<forall>x\<in>set corr. is_fin x)))"
proof -
  have m: "0 < length rms_a" "0 < length rms_b" using assms by simp_all
  have A: "correlate (ones_like rms_a) (ones_like rms_b)
           = Inr (map (\<lambda>k. Fin (real (overlap (length rms_a) (length rms_b) k)))
                    [0 ..< length rms_a + length rms_b - 1])"
    unfolding ones_like_def by (rule correlate_ones [OF m])
  have B: "\<forall>k < length rms_a + length rms_b - 1. 1 \<le> overlap (length rms_a) (length rms_b) k"
    using overlap_pos [OF m] by blast
  have C: "\<exists>corr. normalized_corr rms_a rms_b = Inr corr
             \<and> length corr = length rms_a + length rms_b - 1
             \<and> (\<forall>x\<in>set corr. is_fin x)"
    if fa: "\<forall>x\<in>set rms_a. is_fin x" and fb: "\<forall>x\<in>set rms_b. is_fin x"
  proof -
    obtain xs where xs: "rms_a = map Fin xs" using all_fin_map [OF fa] by blast
    obtain ys where ys: "rms_b = map Fin ys" using all_fin_map [OF fb] by blast
    have ne: "xs \<noteq> []" "ys \<noteq> []" using assms xs ys by auto
    show ?thesis unfolding xs ys normalized_corr_fin [OF ne] by auto
  qed
  from A B C show ?thesis by blast
qed

theorem overlap_count_positive_witness:
  "[Fin 1, Fin 2] \<noteq> [] \<and> [Fin 3] \<noteq> []
   \<and> is_fin (Fin 1) \<and> is_fin (Fin 2) \<and> is_fin (Fin 3)
   \<and> correlate (ones_like [Fin 1, Fin 2]) (ones_like [Fin 3]) = Inr [Fin 1, Fin 1]
   \<and> 1 \<le> overlap 2 1 0 \<and> 1 \<le> overlap 2 1 1
   \<and> normalized_corr [Fin 1, Fin 2] [Fin 3] = Inr [Fin 3, Fin 6]"
proof -
  have a: "[Fin 1, Fin 2] \<noteq> []" and b: "[Fin 3] \<noteq> []" by simp_all
  have n: "normalized_corr [Fin 1, Fin 2] [Fin 3] = Inr [Fin 3, Fin 6]" by code_simp
  have d: "correlate (ones_like [Fin 1, Fin 2]) (ones_like [Fin 3]) = Inr [Fin 1, Fin 1]"
    by code_simp
  from overlap_count_positive [OF a b]
  have q: "\<forall>k < length [Fin 1, Fin 2] + length [Fin 3] - 1.
          1 \<le> overlap (length [Fin 1, Fin 2]) (length [Fin 3]) k" by blast
  have l2: "length [Fin 1, Fin 2] = 2" and l1: "length [Fin 3] = 1" by simp_all
  have o0: "1 \<le> overlap 2 1 0" using q [rule_format, of 0] unfolding l2 l1 by simp
  have o1: "1 \<le> overlap 2 1 1" using q [rule_format, of 1] unfolding l2 l1 by simp
  from a b n d o0 o1 show ?thesis by simp
qed

section \<open>The shift of a waveform against itself\<close>

lemma argmax_loop_le: "\<forall>x\<in>set xs. np_le x mp \<Longrightarrow> argmax_loop xs i mp max_ind = max_ind"
  by (induction xs arbitrary: i) simp_all

lemma argmax_loop_zeros:
  "argmax_loop (replicate n (Fin 0) @ ys) i (Fin 0) max_ind = argmax_loop ys (i + n) (Fin 0) max_ind"
  by (induction n arbitrary: i) simp_all

lemma np_argmax_zeros_ones:
  assumes "0 < a" "0 < b"
  shows "np_argmax (replicate a (Fin 0) @ replicate b (Fin 1) @ replicate c (Fin 0)) = Inr a"
proof -
  obtain a' where a: "a = Suc a'" using assms(1) by (cases a) simp_all
  obtain b' where b: "b = Suc b'" using assms(2) by (cases b) simp_all
  have le: "\<forall>x\<in>set (replicate b' (Fin 1) @ replicate c (Fin 0)). np_le x (Fin 1)" by auto
  have "np_argmax (replicate a (Fin 0) @ replicate b (Fin 1) @ replicate c (Fin 0))
      = Inr (argmax_loop (replicate a' (Fin 0) @ (Fin 1 # replicate b' (Fin 1) @ replicate c (Fin 0))) 1 (Fin 0) 0)"
    unfolding a b by simp
  also have "\<dots> = Inr (argmax_loop (Fin 1 # replicate b' (Fin 1) @ replicate c (Fin 0)) (1 + a') (Fin 0) 0)"
    by (simp only: argmax_loop_zeros)
  also have "\<dots> = Inr (1 + a')"
    using argmax_loop_le [OF le] by simp
  finally show ?thesis unfolding a by simp
qed

lemma envelope_ones:
  assumes h: "0 < ms_to_samples hop_length_ms sr" and w: "0 < ms_to_samples win_length_ms sr"
  shows "audio_to_rms_envelope (replicate n 1) sr win_length_ms hop_length_ms =
     Inr (replicate (nat ((int n - ms_to_samples win_length_ms sr
                          + ms_to_samples hop_length_ms sr - 1) div ms_to_samples hop_length_ms sr)) (Fin 1))"
proof -
  let ?h = "ms_to_samples hop_length_ms sr" and ?w = "ms_to_samples win_length_ms sr"
  let ?c = "nat ((int n - ?w + ?h - 1) div ?h)"
  have "map (\<lambda>k. rms (take (nat ?w) (drop (k * nat ?h) (replicate n 1)))) [0 ..< ?c] = replicate ?c (Fin 1)"
  proof (rule nth_equalityI)
    show "length (map (\<lambda>k. rms (take (nat ?w) (drop (k * nat ?h) (replicate n 1)))) [0 ..< ?c]) = length (replicate ?c (Fin 1))"
      by simp
  next
    fix i assume "i < length (map (\<lambda>k. rms (take (nat ?w) (drop (k * nat ?h) (replicate n 1)))) [0 ..< ?c])"
    then have i: "i < ?c" by simp
    then have "int i < (int n - ?w + ?h - 1) div ?h" by linarith
    then have lt: "int i * ?h < int n - ?w" using range_count_iff [OF h] by simp
    have e: "int (i * nat ?h) = int i * ?h" using h by simp
    have "0 < n - i * nat ?h" using lt w e by linarith
    then have "0 < min (nat ?w) (n - i * nat ?h)" using w by simp
    then have "rms (take (nat ?w) (drop (i * nat ?h) (replicate n 1))) = Fin 1"
      by (simp add: rms_ones)
    then show "map (\<lambda>k. rms (take (nat ?w) (drop (k * nat ?h) (replicate n 1)))) [0 ..< ?c] ! i = replicate ?c (Fin 1) ! i"
      using i by simp
  qed
  then show ?thesis
    using envelope_frames [OF h, of win_length_ms "replicate n 1"] w by simp
qed

lemma frames_default: "sec_to_frames 1 10 = Inr 100" "sec_to_frames 30 10 = Inr 3000"
  by code_simp+

lemma constrain_min_overlap_ones:
  assumes "200 \<le> n"
  shows "constrain_min_overlap (replicate n (Fin 1)) 1 10
     = Inr (replicate 100 (Fin 0) @ replicate (n - 200) (Fin 1) @ replicate 100 (Fin 0))"
proof -
  have a: "fill_upto (replicate n (Fin 1)) 100 (Fin 0) = replicate 100 (Fin 0) @ replicate (n - 100) (Fin 1)"
    using assms unfolding fill_upto_def norm_index_def Let_def by simp
  have b: "fill_from (replicate 100 (Fin 0) @ replicate (n - 100) (Fin 1)) (- 100) (Fin 0)
         = replicate 100 (Fin 0) @ replicate (n - 200) (Fin 1) @ replicate 100 (Fin 0)"
  proof -
    have len: "length (replicate 100 (Fin 0) @ replicate (n - 100) (Fin 1)) = n" using assms by simp
    have ni: "norm_index n (- 100) = n - 100" unfolding norm_index_def using assms by simp
    have t: "take (n - 100) (replicate 100 (Fin 0) @ replicate (n - 100) (Fin 1))
               = replicate 100 (Fin 0) @ replicate (n - 200) (Fin 1)"
      using assms by (simp add: min_def) arith
    have r: "n - (n - 100) = 100" using assms by simp
    show ?thesis unfolding fill_from_def Let_def len ni t r by simp
  qed
  show ?thesis unfolding constrain_min_overlap_def by (simp add: frames_default a b)
qed

lemma constrain_max_shift_noop:
  assumes "half_idx \<le> 3000" "int (length corr) \<le> half_idx + 3000"
  shows "constrain_max_shift corr half_idx 30 10 = Inr corr"
  using assms unfolding constrain_max_shift_def fill_upto_def fill_from_def norm_index_def Let_def
  by (simp add: frames_default max_def min_def)

lemma py_int_of_int [simp]: "py_int (real_of_int z) = z"
  unfolding py_int_def by simp






























lemma get_shift_ms_constant_3s:
  "get_shift_ms (replicate 48000 1) (replicate 48000 1) 16000 16000 25 10 1 30 = Inr (- 1980)"
proof -
  have e: "audio_to_rms_envelope (replicate 48000 1) 16000 25 10 = Inr (replicate 298 (Fin 1))"
    by (subst envelope_ones) (simp_all add: ms_16000)
  have n: "normalized_corr (replicate 298 (Fin 1)) (replicate 298 (Fin 1)) = Inr (replicate 595 (Fin 1))"
    by (subst normalized_corr_ones) simp_all
  have hi: "half_index (replicate 595 (Fin 1)) = 298"
    unfolding half_index_def length_replicate by code_simp
  have c1: "constrain_min_overlap (replicate 595 (Fin 1)) 1 10
     = Inr (replicate 100 (Fin 0) @ replicate 395 (Fin 1) @ replicate 100 (Fin 0))"
    by (subst constrain_min_overlap_ones) simp_all
  have c2: "constrain_max_shift (replicate 100 (Fin 0) @ replicate 395 (Fin 1) @ replicate 100 (Fin 0)) 298 30 10
     = Inr (replicate 100 (Fin 0) @ replicate 395 (Fin 1) @ replicate 100 (Fin 0))"
    by (rule constrain_max_shift_noop) simp_all
  have am: "np_argmax (replicate 100 (Fin 0) @ replicate 395 (Fin 1) @ replicate 100 (Fin 0)) = Inr 100"
    by (rule np_argmax_zeros_ones) simp_all
  have s: "shift_of_argmax 100 298 298 298 10 = - 1980" by code_simp
  show ?thesis unfolding get_shift_ms_def
    by (simp add: e n hi c1 c2 am s Let_def)
qed


section \<open>pad_and_crop_one_to_match_other\<close>

subsection \<open>Rounding errors of the end displacement\<close>

lemma ulp52_pos: "0 < ulp52"
  unfolding ulp52_def by simp

lemma ulp52_small: "5 * ulp52 \<le> 1"
  unfolding ulp52_def by simp

lemma float64_abs_bound: "\<bar>float64 x\<bar> \<le> \<bar>x\<bar> + \<bar>x\<bar> * ulp52"
proof -
  have "\<bar>x\<bar> / 2 ^ 53 \<le> \<bar>x\<bar> / 2 ^ 52" by (rule divide_left_mono) simp_all
  then have "\<bar>float64 x - x\<bar> \<le> \<bar>x\<bar> * ulp52"
    using float64_error [of x] unfolding ulp52_def by simp
  then show ?thesis by linarith
qed

lemma fl_step:
  assumes "\<bar>x - X\<bar> \<le> c * G" "\<bar>X\<bar> \<le> G" "0 \<le> c" "c \<le> 1"
  shows "\<bar>float64 x - X\<bar> \<le> (c + ulp52) * G"
proof -
  have G0: "0 \<le> G" using assms(2) by linarith
  have "c * G \<le> 1 * G" using assms(4) G0 by (rule mult_right_mono)
  then have x2: "\<bar>x\<bar> \<le> 2 * G" using assms(1,2) by linarith
  have "\<bar>float64 x - x\<bar> \<le> \<bar>x\<bar> / 2 ^ 53" by (rule float64_error)
  also have "\<dots> \<le> (2 * G) / 2 ^ 53" using x2 by (rule divide_right_mono) simp
  also have "\<dots> = ulp52 * G" unfolding ulp52_def by simp
  finally have "\<bar>float64 x - x\<bar> \<le> ulp52 * G" .
  then have "\<bar>float64 x - X\<bar> \<le> c * G + ulp52 * G" using assms(1) by linarith
  then show ?thesis by (simp only: distrib_right)
qed

lemma scale_err:
  fixes x X c G k :: real
  assumes "\<bar>x - X\<bar> \<le> c * G" "0 \<le> k"
  shows "\<bar>k * x - k * X\<bar> \<le> c * (k * G)"
proof -
  have "k * x - k * X = k * (x - X)" by (simp add: right_diff_distrib)
  then have "\<bar>k * x - k * X\<bar> = k * \<bar>x - X\<bar>" using assms(2) by (simp only: abs_mult abs_of_nonneg)
  also have "\<dots> \<le> k * (c * G)" using assms by (intro mult_left_mono)
  also have "\<dots> = c * (k * G)" by (simp only: mult.left_commute)
  finally show ?thesis .
qed

lemma samples_ms_error:
  assumes "0 \<le> n" "0 < sr"
  shows "\<bar>fmul 1000 (int_truediv n sr) - 1000 * (real_of_int n / real_of_int sr)\<bar>
           \<le> (ulp52 + ulp52) * (1000 * (real_of_int n / real_of_int sr))"
proof -
  define X where "X = real_of_int n / real_of_int sr"
  have X0: "0 \<le> X" using assms unfolding X_def by simp
  have u1: "ulp52 \<le> 1" using ulp52_small ulp52_pos by linarith
  have i: "\<bar>X - X\<bar> \<le> 0 * X" by simp
  have "\<bar>float64 X - X\<bar> \<le> (0 + ulp52) * X"
    by (rule fl_step [OF i]) (use X0 in simp_all)
  then have "\<bar>float64 X - X\<bar> \<le> ulp52 * X" by simp
  then have a: "\<bar>1000 * float64 X - 1000 * X\<bar> \<le> ulp52 * (1000 * X)"
    by (rule scale_err) simp
  have "\<bar>1000 * X\<bar> \<le> 1000 * X" using X0 by simp
  from fl_step [OF a this] ulp52_pos u1
  have "\<bar>float64 (1000 * float64 X) - 1000 * X\<bar> \<le> (ulp52 + ulp52) * (1000 * X)" by simp
  then show ?thesis unfolding fmul_def int_truediv_def X_def .
qed

lemma end_displacement_error:
  assumes A: "0 \<le> A" and B: "0 \<le> B" and ra: "0 < ra" and rb: "0 < rb" "rb < 2 ^ 53"
  shows "\<bar>fmul (fdiv (fsub (fmul 1000 (int_truediv A ra)) (fmul 1000 (int_truediv B rb))) 1000)
                 (int_to_float rb)
           - (real_of_int A * real_of_int rb / real_of_int ra - real_of_int B)\<bar>
         \<le> 5 * ulp52 * (real_of_int A * real_of_int rb / real_of_int ra + real_of_int B)"
proof -
  define Xa where "Xa = real_of_int A / real_of_int ra"
  define Xb where "Xb = real_of_int B / real_of_int rb"
  define t1 where "t1 = fmul 1000 (int_truediv A ra)"
  define t2 where "t2 = fmul 1000 (int_truediv B rb)"
  define G where "G = Xa + Xb"
  define c2 where "c2 = ulp52 + ulp52"
  define c3 where "c3 = c2 + ulp52"
  define c4 where "c4 = c3 + ulp52"
  define c5 where "c5 = c4 + ulp52"
  have cs: "0 \<le> c2" "c2 \<le> 1" "0 \<le> c3" "c3 \<le> 1" "0 \<le> c4" "c4 \<le> 1"
    using ulp52_pos ulp52_small unfolding c2_def c3_def c4_def by linarith+
  have c5: "c5 = 5 * ulp52" unfolding c5_def c4_def c3_def c2_def by simp
  have Xa0: "0 \<le> Xa" using A ra unfolding Xa_def by simp
  have Xb0: "0 \<le> Xb" using B rb unfolding Xb_def by simp
  have e1: "\<bar>t1 - 1000 * Xa\<bar> \<le> c2 * (1000 * Xa)"
    unfolding t1_def Xa_def c2_def by (rule samples_ms_error [OF A ra])
  have e2: "\<bar>t2 - 1000 * Xb\<bar> \<le> c2 * (1000 * Xb)"
    unfolding t2_def Xb_def c2_def by (rule samples_ms_error [OF B rb(1)])
  have "(t1 - t2) - 1000 * (Xa - Xb) = (t1 - 1000 * Xa) - (t2 - 1000 * Xb)"
    by (simp add: algebra_simps)
  then have "\<bar>(t1 - t2) - 1000 * (Xa - Xb)\<bar> \<le> \<bar>t1 - 1000 * Xa\<bar> + \<bar>t2 - 1000 * Xb\<bar>"
    by (simp only: abs_triangle_ineq4)
  also have "\<dots> \<le> c2 * (1000 * Xa) + c2 * (1000 * Xb)" using e1 e2 by linarith
  also have "\<dots> = c2 * (1000 * G)" unfolding G_def by (simp add: algebra_simps)
  finally have d0: "\<bar>(t1 - t2) - 1000 * (Xa - Xb)\<bar> \<le> c2 * (1000 * G)" .
  have dX: "\<bar>1000 * (Xa - Xb)\<bar> \<le> 1000 * G" using Xa0 Xb0 unfolding G_def by simp
  have d1: "\<bar>float64 (t1 - t2) - 1000 * (Xa - Xb)\<bar> \<le> c3 * (1000 * G)"
    unfolding c3_def by (rule fl_step [OF d0 dX cs(1,2)])
  have "\<bar>(1 / 1000) * float64 (t1 - t2) - (1 / 1000) * (1000 * (Xa - Xb))\<bar>
          \<le> c3 * ((1 / 1000) * (1000 * G))"
    by (rule scale_err [OF d1]) simp
  moreover have "(1 / 1000) * (1000 * (Xa - Xb)) = Xa - Xb" by simp
  moreover have "(1 / 1000) * (1000 * G) = G" by simp
  moreover have "(1 / 1000) * float64 (t1 - t2) = float64 (t1 - t2) / 1000" by simp
  ultimately have s0: "\<bar>float64 (t1 - t2) / 1000 - (Xa - Xb)\<bar> \<le> c3 * G" by (simp only:)
  have sX: "\<bar>Xa - Xb\<bar> \<le> G" using Xa0 Xb0 unfolding G_def by simp
  define s where "s = float64 (float64 (t1 - t2) / 1000)"
  have s1: "\<bar>s - (Xa - Xb)\<bar> \<le> c4 * G"
    unfolding c4_def s_def by (rule fl_step [OF s0 sX cs(3,4)])
  have rb0: "0 \<le> real_of_int rb" using rb(1) by simp
  have "\<bar>real_of_int rb * s - real_of_int rb * (Xa - Xb)\<bar> \<le> c4 * (real_of_int rb * G)"
    by (rule scale_err [OF s1 rb0])
  then have r0: "\<bar>s * real_of_int rb - (Xa - Xb) * real_of_int rb\<bar> \<le> c4 * (G * real_of_int rb)"
    by (simp only: mult.commute)
  have "\<bar>(Xa - Xb) * real_of_int rb\<bar> = \<bar>Xa - Xb\<bar> * real_of_int rb"
    using rb0 by (simp only: abs_mult abs_of_nonneg)
  also have "\<dots> \<le> G * real_of_int rb" using sX rb0 by (rule mult_right_mono)
  finally have rX: "\<bar>(Xa - Xb) * real_of_int rb\<bar> \<le> G * real_of_int rb" .
  have r1: "\<bar>float64 (s * real_of_int rb) - (Xa - Xb) * real_of_int rb\<bar> \<le> c5 * (G * real_of_int rb)"
    unfolding c5_def by (rule fl_step [OF r0 rX cs(5,6)])
  have fr: "int_to_float rb = real_of_int rb"
    unfolding int_to_float_def using rb by (intro float64_of_int) simp
  have rbn: "real_of_int rb \<noteq> 0" using rb(1) by simp
  have E: "(Xa - Xb) * real_of_int rb = real_of_int A * real_of_int rb / real_of_int ra - real_of_int B"
    using rbn unfolding Xa_def Xb_def by (simp add: algebra_simps)
  have GG: "G * real_of_int rb = real_of_int A * real_of_int rb / real_of_int ra + real_of_int B"
    using rbn unfolding G_def Xa_def Xb_def by (simp add: algebra_simps)
  show ?thesis
    using r1 unfolding E GG c5 s_def fmul_def fdiv_def fsub_def fr t1_def t2_def .
qed

lemma trunc_near:
  fixes ra N :: int
  assumes err: "\<bar>r - E\<bar> \<le> eps" and e1: "eps < 1" and er: "eps * real_of_int ra < 1"
    and ra: "0 < ra" and int: "E * real_of_int ra = real_of_int N"
  shows "\<bar>real_of_int (py_int r) - E\<bar> \<le> 1"
proof -
  define t where "t = py_int r"
  have ra0: "0 < real_of_int ra" using ra by simp
  have up: "real_of_int t \<le> r" if "0 \<le> r"
    using that unfolding t_def py_int_def by simp
  have lo: "r \<le> real_of_int t" if "r < 0"
    using that unfolding t_def py_int_def by simp
  have near1: "r - 1 < real_of_int t"
    unfolding t_def py_int_def by (cases "0 \<le> r") (simp_all, linarith+)
  have near2: "real_of_int t < r + 1"
    unfolding t_def py_int_def by (cases "0 \<le> r") (simp_all, linarith+)
  have no_gap: False
    if z: "0 < (real_of_int z - E) * real_of_int ra" "(real_of_int z - E) * real_of_int ra < 1"
    for z :: int
  proof -
    have "(real_of_int z - E) * real_of_int ra = real_of_int (z * ra - N)"
      using int by (simp add: algebra_simps)
    with z have "0 < real_of_int (z * ra - N)" "real_of_int (z * ra - N) < 1" by simp_all
    then have "0 < z * ra - N" "z * ra - N < 1"
      by (simp_all only: of_int_0_less_iff of_int_less_1_iff)
    then show False by linarith
  qed
  have no_gap': False
    if z: "0 < (E - real_of_int z) * real_of_int ra" "(E - real_of_int z) * real_of_int ra < 1"
    for z :: int
  proof -
    have "(E - real_of_int z) * real_of_int ra = real_of_int (N - z * ra)"
      using int by (simp add: algebra_simps)
    with z have "0 < real_of_int (N - z * ra)" "real_of_int (N - z * ra) < 1" by simp_all
    then have "0 < N - z * ra" "N - z * ra < 1"
      by (simp_all only: of_int_0_less_iff of_int_less_1_iff)
    then show False by linarith
  qed
  have A: "real_of_int t - E \<le> 1"
  proof (rule ccontr)
    assume "\<not> real_of_int t - E \<le> 1"
    then have gt: "1 < real_of_int t - E" by simp
    have g1: "0 < real_of_int (t - 1) - E" using gt by simp
    have "real_of_int t < E + eps + 1" using near2 err by linarith
    then have "real_of_int (t - 1) - E < eps" by simp
    then have "(real_of_int (t - 1) - E) * real_of_int ra < eps * real_of_int ra"
      using ra0 by (rule mult_strict_right_mono)
    then have g2: "(real_of_int (t - 1) - E) * real_of_int ra < 1" using er by linarith
    have g3: "0 < (real_of_int (t - 1) - E) * real_of_int ra" using g1 ra0 by (rule mult_pos_pos)
    from no_gap [OF g3 g2] show False .
  qed
  have B: "E - real_of_int t \<le> 1"
  proof (rule ccontr)
    assume "\<not> E - real_of_int t \<le> 1"
    then have gt: "1 < E - real_of_int t" by simp
    have g1: "0 < E - real_of_int (t + 1)" using gt by simp
    have "E - eps - 1 < real_of_int t" using near1 err by linarith
    then have "E - real_of_int (t + 1) < eps" by simp
    then have "(E - real_of_int (t + 1)) * real_of_int ra < eps * real_of_int ra"
      using ra0 by (rule mult_strict_right_mono)
    then have g2: "(E - real_of_int (t + 1)) * real_of_int ra < 1" using er by linarith
    have g3: "0 < (E - real_of_int (t + 1)) * real_of_int ra" using g1 ra0 by (rule mult_pos_pos)
    from no_gap' [OF g3 g2] show False .
  qed
  from A B show ?thesis unfolding t_def by linarith
qed

lemma start_samples_bound:
  assumes sh: "\<bar>shift_ms\<bar> \<le> 10 ^ 6" and rb: "0 < rb" "rb \<le> 2 ^ 18"
  shows "\<bar>ms_to_samples shift_ms rb\<bar> \<le> 2 ^ 29"
proof -
  define y where "y = fdiv shift_ms 1000"
  define r where "r = fmul y (int_to_float rb)"
  have u: "ulp52 \<le> 1 / 5" using ulp52_small by simp
  have "\<bar>shift_ms / 1000\<bar> \<le> 1000" using sh by simp
  moreover have "\<bar>y\<bar> \<le> \<bar>shift_ms / 1000\<bar> + \<bar>shift_ms / 1000\<bar> * ulp52"
    unfolding y_def fdiv_def by (rule float64_abs_bound)
  moreover have "\<bar>shift_ms / 1000\<bar> * ulp52 \<le> 1000 * (1 / 5)"
    using calculation(1) u ulp52_pos by (intro mult_mono) simp_all
  ultimately have y: "\<bar>y\<bar> \<le> 1200" by linarith
  have fr: "int_to_float rb = real_of_int rb"
    unfolding int_to_float_def using rb by (intro float64_of_int) simp
  have "real_of_int rb \<le> real_of_int (2 ^ 18)" using rb(2) by (simp only: of_int_le_iff)
  then have rb': "real_of_int rb \<le> 2 ^ 18" by simp
  have "\<bar>y * real_of_int rb\<bar> = \<bar>y\<bar> * real_of_int rb" using rb(1) by (simp add: abs_mult)
  also have "\<dots> \<le> 1200 * 2 ^ 18" using y rb' rb(1) by (intro mult_mono) simp_all
  finally have p: "\<bar>y * real_of_int rb\<bar> \<le> 1200 * 2 ^ 18" .
  have "\<bar>r\<bar> \<le> \<bar>y * real_of_int rb\<bar> + \<bar>y * real_of_int rb\<bar> * ulp52"
    unfolding r_def fmul_def fr by (rule float64_abs_bound)
  moreover have "\<bar>y * real_of_int rb\<bar> * ulp52 \<le> (1200 * 2 ^ 18) * (1 / 5)"
    using p u ulp52_pos by (intro mult_mono) simp_all
  ultimately have "\<bar>r\<bar> \<le> 1440 * 2 ^ 18" using p by linarith
  then have "\<bar>r\<bar> \<le> 2 ^ 29" by simp
  moreover have "\<bar>real_of_int (py_int r)\<bar> \<le> \<bar>r\<bar>" using py_int_trunc [of r] by simp
  ultimately have "\<bar>real_of_int (py_int r)\<bar> \<le> 2 ^ 29" by linarith
  then have "real_of_int \<bar>py_int r\<bar> \<le> real_of_int (2 ^ 29)" by simp
  then have "\<bar>py_int r\<bar> \<le> 2 ^ 29" by (simp only: of_int_le_iff)
  then show ?thesis unfolding ms_to_samples_def sec_to_samples_def r_def y_def .
qed

lemma end_samples_near:
  assumes A: "0 \<le> A" "real_of_int A * real_of_int rb / real_of_int ra \<le> 2 ^ 30"
    and B: "0 \<le> B" "B \<le> 2 ^ 30"
    and ra: "0 < ra" "ra \<le> 2 ^ 18" and rb: "0 < rb" "rb \<le> 2 ^ 18"
  shows "\<bar>real_of_int (ms_to_samples (fsub (fmul 1000 (int_truediv A ra)) (fmul 1000 (int_truediv B rb))) rb)
          - (real_of_int A * real_of_int rb / real_of_int ra - real_of_int B)\<bar> \<le> 1"
proof -
  define L where "L = real_of_int A * real_of_int rb / real_of_int ra"
  define r where "r = fmul (fdiv (fsub (fmul 1000 (int_truediv A ra)) (fmul 1000 (int_truediv B rb))) 1000)
                 (int_to_float rb)"
  define eps where "eps = 5 * ulp52 * 2 ^ 31"
  have rb53: "rb < 2 ^ 53" using rb(2) by simp
  have "real_of_int B \<le> real_of_int (2 ^ 30)" using B(2) by (simp only: of_int_le_iff)
  then have B': "real_of_int B \<le> 2 ^ 30" by simp
  have "\<bar>r - (L - real_of_int B)\<bar> \<le> 5 * ulp52 * (L + real_of_int B)"
    unfolding r_def L_def by (rule end_displacement_error [OF A(1) B(1) ra(1) rb(1) rb53])
  also have "\<dots> \<le> 5 * ulp52 * 2 ^ 31"
    using A(2) B' ulp52_pos unfolding L_def by (intro mult_left_mono) simp_all
  finally have err: "\<bar>r - (L - real_of_int B)\<bar> \<le> eps" unfolding eps_def .
  have e1: "eps < 1" unfolding eps_def ulp52_def by simp
  have "real_of_int ra \<le> real_of_int (2 ^ 18)" using ra(2) by (simp only: of_int_le_iff)
  then have ra': "real_of_int ra \<le> 2 ^ 18" by simp
  have eps0: "0 \<le> eps" unfolding eps_def using ulp52_pos by simp
  have "eps * real_of_int ra \<le> eps * 2 ^ 18" using ra' eps0 by (rule mult_left_mono)
  also have "\<dots> < 1" unfolding eps_def ulp52_def by simp
  finally have er: "eps * real_of_int ra < 1" .
  have ran: "real_of_int ra \<noteq> 0" using ra(1) by simp
  have int: "(L - real_of_int B) * real_of_int ra = real_of_int (A * rb - B * ra)"
    unfolding L_def using ran by (simp add: algebra_simps)
  have "\<bar>real_of_int (py_int r) - (L - real_of_int B)\<bar> \<le> 1"
    by (rule trunc_near [OF err e1 er ra(1) int])
  then show ?thesis unfolding r_def L_def ms_to_samples_def sec_to_samples_def .
qed

lemma pad_and_crop_unfold:
  assumes "sr_a \<noteq> 0" "sr_b \<noteq> 0"
  shows "pad_and_crop_one_to_match_other audio_a audio_b sr_a sr_b shift_ms =
     (let s = ms_to_samples shift_ms sr_b;
          b1 = (if s < 0 then drop (min (nat (- s)) (length audio_b)) audio_b
                else replicate (nat s) 0 @ audio_b);
          e = ms_to_samples (fsub (fmul 1000 (int_truediv (int (length audio_a)) sr_a))
                                  (fmul 1000 (int_truediv (int (length b1)) sr_b))) sr_b
      in Inr (audio_a, if e < 0 then take (nat (max (e + int (length b1)) 0)) b1
                       else b1 @ replicate (nat e) 0))"
  using assms
  unfolding pad_and_crop_one_to_match_other_def Let_def np_zeros_def samples_to_ms_def
    samples_to_sec_def py_slice_from_def py_slice_upto_def norm_index_def
  by (auto simp: abs_if)

text \<open>
  Claim C5. \<open>pad_and_crop_one_to_match_other\<close> returns A as it received it, and a B whose
  length differs from A's duration, counted in samples of B, by at most one sample; with
  equal sample rates the two lengths differ by at most one. The bounds on the sizes keep
  the float arithmetic exact enough: sample rates up to \<open>2^18\<close> Hz, a shift of at most
  \<open>10^6\<close> ms, B of at most \<open>2^29\<close> samples and A of at most \<open>2^30\<close> samples of B's rate.
\<close>

theorem pad_and_crop_matches_duration:
  assumes ra: "0 < sr_a" "sr_a \<le> 2 ^ 18" and rb: "0 < sr_b" "sr_b \<le> 2 ^ 18"
    and sh: "\<bar>shift_ms\<bar> \<le> 10 ^ 6"
    and lb: "length audio_b \<le> 2 ^ 29"
    and la: "int (length audio_a) * sr_b \<le> 2 ^ 30 * sr_a"
  shows "\<exists>out_b. pad_and_crop_one_to_match_other audio_a audio_b sr_a sr_b shift_ms
                    = Inr (audio_a, out_b)
     \<and> \<bar>real (length out_b) / real_of_int sr_b - real (length audio_a) / real_of_int sr_a\<bar>
           \<le> 1 / real_of_int sr_b
     \<and> (sr_a = sr_b \<longrightarrow> \<bar>int (length out_b) - int (length audio_a)\<bar> \<le> 1)"
proof -
  define s where "s = ms_to_samples shift_ms sr_b"
  define b1 where "b1 = (if s < 0 then drop (min (nat (- s)) (length audio_b)) audio_b
                else replicate (nat s) 0 @ audio_b)"
  define A where "A = int (length audio_a)"
  define B where "B = int (length b1)"
  define e where "e = ms_to_samples (fsub (fmul 1000 (int_truediv A sr_a))
                                  (fmul 1000 (int_truediv B sr_b))) sr_b"
  define out_b where "out_b = (if e < 0 then take (nat (max (e + B) 0)) b1
                       else b1 @ replicate (nat e) 0)"
  define L where "L = real_of_int A * real_of_int sr_b / real_of_int sr_a"
  have res: "pad_and_crop_one_to_match_other audio_a audio_b sr_a sr_b shift_ms = Inr (audio_a, out_b)"
    unfolding out_b_def e_def B_def A_def b1_def s_def using ra(1) rb(1)
    by (simp add: pad_and_crop_unfold Let_def)
  have sb: "\<bar>s\<bar> \<le> 2 ^ 29" unfolding s_def by (rule start_samples_bound [OF sh rb])
  have "length b1 \<le> length audio_b + nat \<bar>s\<bar>" unfolding b1_def by (simp add: abs_if) arith
  then have "B \<le> int (length audio_b) + \<bar>s\<bar>" unfolding B_def by linarith
  moreover have "int (length audio_b) \<le> 2 ^ 29" using lb by (simp add: of_nat_le_iff [symmetric] del: of_nat_le_iff)
  ultimately have B30: "B \<le> 2 ^ 30" using sb by simp
  have B0: "0 \<le> B" unfolding B_def by simp
  have A0: "0 \<le> A" unfolding A_def by simp
  have ra0: "0 < real_of_int sr_a" and rb0: "0 < real_of_int sr_b" using ra(1) rb(1) by simp_all
  have "real_of_int (A * sr_b) \<le> real_of_int (2 ^ 30 * sr_a)"
    using la unfolding A_def by (simp only: of_int_le_iff)
  then have "real_of_int A * real_of_int sr_b \<le> 2 ^ 30 * real_of_int sr_a" by simp
  then have L30: "L \<le> 2 ^ 30" unfolding L_def using ra0 by (simp add: pos_divide_le_eq)
  have L0: "0 \<le> L" unfolding L_def using A0 ra0 rb0 by simp
  have near: "\<bar>real_of_int e - (L - real_of_int B)\<bar> \<le> 1"
    unfolding e_def L_def
    by (rule end_samples_near [OF A0 L30 [unfolded L_def] B0 B30 ra rb])
  have len: "int (length out_b) = (if e + B < 0 then 0 else e + B)"
    unfolding out_b_def B_def by (auto simp: min_def max_def)
  have key: "\<bar>real_of_int (int (length out_b)) - L\<bar> \<le> 1"
  proof (cases "e + B < 0")
    case True
    then have "real_of_int e + real_of_int B < 0" by (simp flip: of_int_add)
    then have "L < 1" using near by linarith
    then show ?thesis using L0 len True by simp
  next
    case False
    then have "int (length out_b) = e + B" using len by simp
    then show ?thesis using near by simp
  qed
  have dur: "\<bar>real (length out_b) / real_of_int sr_b - real (length audio_a) / real_of_int sr_a\<bar>
           \<le> 1 / real_of_int sr_b"
  proof -
    have "real (length out_b) / real_of_int sr_b - real (length audio_a) / real_of_int sr_a
           = (real_of_int (int (length out_b)) - L) / real_of_int sr_b"
      unfolding L_def A_def using ra0 rb0 by (simp add: field_simps)
    then have "\<bar>real (length out_b) / real_of_int sr_b - real (length audio_a) / real_of_int sr_a\<bar>
           = \<bar>real_of_int (int (length out_b)) - L\<bar> / real_of_int sr_b"
      using rb0 by (simp add: abs_divide)
    also have "\<dots> \<le> 1 / real_of_int sr_b" using key rb0 by (simp add: divide_right_mono)
    finally show ?thesis .
  qed
  have eq: "\<bar>int (length out_b) - int (length audio_a)\<bar> \<le> 1" if "sr_a = sr_b"
  proof -
    have "L = real_of_int A" unfolding L_def using that ra0 by simp
    then have "\<bar>real_of_int (int (length out_b) - A)\<bar> \<le> 1" using key by simp
    then have "real_of_int \<bar>int (length out_b) - A\<bar> \<le> real_of_int 1" by simp
    then show ?thesis unfolding A_def by (simp only: of_int_le_iff)
  qed
  from res dur eq show ?thesis by blast
qed

theorem pad_and_crop_matches_duration_witness:
  "(0::int) < 1000 \<and> (1000::int) \<le> 2 ^ 18 \<and> \<bar>2 :: real\<bar> \<le> 10 ^ 6
   \<and> length [3, 4, 5 :: real] \<le> 2 ^ 29
   \<and> int (length [1, 2, 3, 4 :: real]) * 1000 \<le> 2 ^ 30 * 1000
   \<and> (\<exists>out_b. pad_and_crop_one_to_match_other [1, 2, 3, 4] [3, 4, 5] 1000 1000 2
                    = Inr ([1, 2, 3, 4], out_b)
         \<and> \<bar>int (length out_b) - int (length [1, 2, 3, 4 :: real])\<bar> \<le> 1)"
proof -
  have r: "(0::int) < 1000" "(1000::int) \<le> 2 ^ 18" by simp_all
  have sh: "\<bar>2 :: real\<bar> \<le> 10 ^ 6" by simp
  have lb: "length [3, 4, 5 :: real] \<le> 2 ^ 29" by simp
  have la: "int (length [1, 2, 3, 4 :: real]) * 1000 \<le> 2 ^ 30 * 1000" by simp
  from pad_and_crop_matches_duration [OF r r sh lb la] r sh lb la
  show ?thesis by blast
qed

section \<open>pad_both and crop_both up to one sample\<close>

text \<open>
  What does hold of the lengths that \<open>pad_both\<close> and \<open>crop_both\<close> return at equal sample
  rates: they differ by at most one sample, for the same bounds on the sizes as above.
\<close>

lemma float64_neg: "float64 (- x) = - float64 x"
  unfolding float64_def float_exp_def Let_def by simp

lemma float64_nonneg:
  assumes x: "0 \<le> x"
  shows "0 \<le> float64 x"
proof (cases "x = 0")
  case True
  then show ?thesis by (simp add: float64_def)
next
  case False
  define q where "q = pow2 (float_exp x - 52)"
  have q0: "0 < q" unfolding q_def by simp
  have "0 \<le> \<bar>x\<bar> / q" using q0 by (intro divide_nonneg_pos) simp_all
  then have "0 \<le> \<lfloor>\<bar>x\<bar> / q\<rfloor>" by simp
  then have "0 \<le> round_half_even (\<bar>x\<bar> / q)"
    unfolding round_half_even_def Let_def by simp
  then have r: "0 \<le> real_of_int (round_half_even (\<bar>x\<bar> / q))" by simp
  have "float64 x = real_of_int (round_half_even (\<bar>x\<bar> / q)) * q"
    using False x unfolding float64_def Let_def q_def by (simp add: sgn_if)
  then show ?thesis using r q0 by simp
qed

lemma py_int_neg: "py_int (- z) = - py_int z"
  unfolding py_int_def by (cases "z = 0") (auto simp: ceiling_minus floor_minus)

lemma ms_to_samples_neg: "ms_to_samples (- x) sr = - ms_to_samples x sr"
proof -
  have "fdiv (- x) 1000 = - fdiv x 1000" unfolding fdiv_def using float64_neg [of "x / 1000"] by simp
  moreover have "fmul (- y) r = - fmul y r" for y r
    unfolding fmul_def using float64_neg [of "y * r"] by simp
  ultimately show ?thesis unfolding ms_to_samples_def sec_to_samples_def by (simp add: py_int_neg)
qed

lemma ms_to_samples_nonneg:
  assumes "0 \<le> x" "0 \<le> sr"
  shows "0 \<le> ms_to_samples x sr"
proof -
  have "0 \<le> fdiv x 1000" unfolding fdiv_def using assms(1) by (intro float64_nonneg) simp
  moreover have "0 \<le> int_to_float sr" unfolding int_to_float_def using assms(2) by (intro float64_nonneg) simp
  ultimately have "0 \<le> fmul (fdiv x 1000) (int_to_float sr)"
    unfolding fmul_def by (intro float64_nonneg) simp
  then show ?thesis unfolding ms_to_samples_def sec_to_samples_def py_int_def by simp
qed

lemma ms_to_samples_nonpos:
  assumes "x \<le> 0" "0 \<le> sr"
  shows "ms_to_samples x sr \<le> 0"
  using ms_to_samples_nonneg [of "- x" sr] assms by (simp add: ms_to_samples_neg)

lemma end_pair:
  assumes A: "0 \<le> A" "A \<le> 2 ^ 30" and B: "0 \<le> B" "B \<le> 2 ^ 30"
    and sr: "0 < sr" "sr \<le> 2 ^ 18"
  defines "d \<equiv> fsub (fmul 1000 (int_truediv A sr)) (fmul 1000 (int_truediv B sr))"
  shows "\<exists>e. \<bar>e - (A - B)\<bar> \<le> 1
     \<and> ms_to_samples (max 0 d) sr = max e 0 \<and> ms_to_samples (- min 0 d) sr = max (- e) 0"
proof -
  define e where "e = ms_to_samples d sr"
  have sr0: "real_of_int sr \<noteq> 0" using sr(1) by simp
  have "real_of_int A \<le> real_of_int (2 ^ 30)" using A(2) by (simp only: of_int_le_iff)
  then have L: "real_of_int A * real_of_int sr / real_of_int sr \<le> 2 ^ 30" using sr0 by simp
  have "\<bar>real_of_int e - (real_of_int A * real_of_int sr / real_of_int sr - real_of_int B)\<bar> \<le> 1"
    unfolding e_def d_def by (rule end_samples_near [OF A(1) L B sr sr])
  then have "\<bar>real_of_int (e - (A - B))\<bar> \<le> 1" using sr0 by simp
  then have "real_of_int \<bar>e - (A - B)\<bar> \<le> real_of_int 1" by simp
  then have near: "\<bar>e - (A - B)\<bar> \<le> 1" by (simp only: of_int_le_iff)
  have sr': "0 \<le> sr" using sr(1) by simp
  have z: "ms_to_samples 0 sr = 0" by (rule ms_zero)
  show ?thesis
  proof (cases "0 \<le> d")
    case True
    then have e0: "0 \<le> e" unfolding e_def using sr' by (intro ms_to_samples_nonneg)
    have "max 0 d = d" "- min 0 d = 0" using True by simp_all
    then have "ms_to_samples (max 0 d) sr = max e 0" "ms_to_samples (- min 0 d) sr = max (- e) 0"
      using e0 z unfolding e_def by simp_all
    with near show ?thesis by blast
  next
    case False
    then have e0: "e \<le> 0" unfolding e_def using sr' by (intro ms_to_samples_nonpos) simp_all
    have "max 0 d = 0" "- min 0 d = - d" using False by simp_all
    then have "ms_to_samples (max 0 d) sr = max e 0" "ms_to_samples (- min 0 d) sr = max (- e) 0"
      using e0 z unfolding e_def by (simp_all add: ms_to_samples_neg)
    with near show ?thesis by blast
  qed
qed

lemma start_pair_bounds:
  assumes sr: "0 < sr" "sr \<le> 2 ^ 18" and sh: "\<bar>shift_ms\<bar> \<le> 10 ^ 6"
  shows "0 \<le> ms_to_samples (- min 0 shift_ms) sr" "ms_to_samples (- min 0 shift_ms) sr \<le> 2 ^ 29"
    "0 \<le> ms_to_samples (max 0 shift_ms) sr" "ms_to_samples (max 0 shift_ms) sr \<le> 2 ^ 29"
proof -
  have sr': "0 \<le> sr" using sr(1) by simp
  have a: "\<bar>- min 0 shift_ms\<bar> \<le> 10 ^ 6" and b: "\<bar>max 0 shift_ms\<bar> \<le> 10 ^ 6" using sh by simp_all
  show "0 \<le> ms_to_samples (- min 0 shift_ms) sr" using sr' by (intro ms_to_samples_nonneg) simp_all
  show "0 \<le> ms_to_samples (max 0 shift_ms) sr" using sr' by (intro ms_to_samples_nonneg) simp_all
  show "ms_to_samples (- min 0 shift_ms) sr \<le> 2 ^ 29" using start_samples_bound [OF a sr] by linarith
  show "ms_to_samples (max 0 shift_ms) sr \<le> 2 ^ 29" using start_samples_bound [OF b sr] by linarith
qed

lemma pad_both_lengths_within_one:
  assumes sr: "0 < sr" "sr \<le> 2 ^ 18" and sh: "\<bar>shift_ms\<bar> \<le> 10 ^ 6"
    and la: "length audio_a \<le> 2 ^ 29" and lb: "length audio_b \<le> 2 ^ 29"
  shows "\<exists>out_a out_b. pad_both audio_a audio_b sr sr shift_ms = Inr (out_a, out_b)
     \<and> \<bar>int (length out_a) - int (length out_b)\<bar> \<le> 1"
proof -
  define sa where "sa = ms_to_samples (- min 0 shift_ms) sr"
  define sb where "sb = ms_to_samples (max 0 shift_ms) sr"
  define A where "A = sa + int (length audio_a)"
  define B where "B = sb + int (length audio_b)"
  define d where "d = fsub (fmul 1000 (int_truediv A sr)) (fmul 1000 (int_truediv B sr))"
  note sp = start_pair_bounds [OF sr sh, folded sa_def sb_def]
  have la': "int (length audio_a) \<le> 2 ^ 29" using la by (simp add: of_nat_le_iff [symmetric] del: of_nat_le_iff)
  have lb': "int (length audio_b) \<le> 2 ^ 29" using lb by (simp add: of_nat_le_iff [symmetric] del: of_nat_le_iff)
  have A: "0 \<le> A" "A \<le> 2 ^ 30" unfolding A_def using sp la' by simp_all
  have B: "0 \<le> B" "B \<le> 2 ^ 30" unfolding B_def using sp lb' by simp_all
  obtain e where e: "\<bar>e - (A - B)\<bar> \<le> 1" "ms_to_samples (max 0 d) sr = max e 0"
      "ms_to_samples (- min 0 d) sr = max (- e) 0"
    using end_pair [OF A B sr] unfolding d_def by blast
  have srn: "sr \<noteq> 0" using sr(1) by simp
  have "pad_both audio_a audio_b sr sr shift_ms
      = Inr (replicate (nat sa) 0 @ audio_a @ replicate (nat (max (- e) 0)) 0,
             replicate (nat sb) 0 @ audio_b @ replicate (nat (max e 0)) 0)"
    using sp(1,3) e(2,3)
    by (subst pad_both_unfold [OF srn srn])
       (simp_all add: Let_def sa_def [symmetric] sb_def [symmetric] A_def [symmetric]
          B_def [symmetric] d_def [symmetric])
  moreover have "\<bar>int (length (replicate (nat sa) 0 @ audio_a @ replicate (nat (max (- e) 0)) (0::real)))
        - int (length (replicate (nat sb) 0 @ audio_b @ replicate (nat (max e 0)) (0::real)))\<bar> \<le> 1"
    using e(1) sp(1,3) unfolding A_def B_def by simp
  ultimately show ?thesis by blast
qed

lemma crop_both_lengths_within_one:
  assumes sr: "0 < sr" "sr \<le> 2 ^ 18"
    and la: "length audio_a \<le> 2 ^ 30" and lb: "length audio_b \<le> 2 ^ 30"
  shows "\<exists>out_a out_b. crop_both audio_a audio_b sr sr shift_ms = Inr (out_a, out_b)
     \<and> \<bar>int (length out_a) - int (length out_b)\<bar> \<le> 1"
proof -
  define a1 where "a1 = py_slice_from audio_a (ms_to_samples (max 0 shift_ms) sr)"
  define b1 where "b1 = py_slice_from audio_b (ms_to_samples (- min 0 shift_ms) sr)"
  define A where "A = int (length a1)"
  define B where "B = int (length b1)"
  define d where "d = fsub (fmul 1000 (int_truediv A sr)) (fmul 1000 (int_truediv B sr))"
  have "length a1 \<le> length audio_a" unfolding a1_def py_slice_from_def by simp
  then have "A \<le> int (length audio_a)" unfolding A_def by simp
  moreover have "int (length audio_a) \<le> 2 ^ 30" using la by (simp add: of_nat_le_iff [symmetric] del: of_nat_le_iff)
  ultimately have A: "0 \<le> A" "A \<le> 2 ^ 30" unfolding A_def by simp_all
  have "length b1 \<le> length audio_b" unfolding b1_def py_slice_from_def by simp
  then have "B \<le> int (length audio_b)" unfolding B_def by simp
  moreover have "int (length audio_b) \<le> 2 ^ 30" using lb by (simp add: of_nat_le_iff [symmetric] del: of_nat_le_iff)
  ultimately have B: "0 \<le> B" "B \<le> 2 ^ 30" unfolding B_def by simp_all
  obtain e where e: "\<bar>e - (A - B)\<bar> \<le> 1" "ms_to_samples (max 0 d) sr = max e 0"
      "ms_to_samples (- min 0 d) sr = max (- e) 0"
    using end_pair [OF A B sr] unfolding d_def by blast
  have srn: "sr \<noteq> 0" using sr(1) by simp
  define out_a where "out_a = (if 0 < max e 0 then py_slice_upto a1 (- max e 0) else a1)"
  define out_b where "out_b = (if 0 < max (- e) 0 then py_slice_upto b1 (- max (- e) 0) else b1)"
  have res: "crop_both audio_a audio_b sr sr shift_ms = Inr (out_a, out_b)"
    unfolding out_a_def out_b_def using e(2,3)
    by (subst crop_both_unfold [OF srn srn])
       (simp_all add: Let_def a1_def [symmetric] b1_def [symmetric] A_def [symmetric]
          B_def [symmetric] d_def [symmetric])
  have la1: "int (length out_a) = max (A - max e 0) 0"
    unfolding out_a_def py_slice_upto_def norm_index_def A_def by (auto simp: max_def min_def)
  have lb1: "int (length out_b) = max (B - max (- e) 0) 0"
    unfolding out_b_def py_slice_upto_def norm_index_def B_def by (auto simp: max_def min_def)
  have "\<bar>int (length out_a) - int (length out_b)\<bar> \<le> 1"
    unfolding la1 lb1 using e(1) A(1) B(1) by arith
  with res show ?thesis by blast
qed

section \<open>An unknown alignment policy\<close>

text \<open>
  Claim C8, as the code has it. \<open>shift_align\<close> looks at \<open>align_how\<close> last. For a value
  outside the three policies the call never returns a pair of waveforms, but the files
  are decoded, the sample rates are asserted and the shift is estimated first: when the
  inputs load with their sample rates, the result is the estimator's error if it fails,
  and the exception \<open>Unknown value for align_how ...\<close> only when it succeeds.
\<close>

theorem shift_align_unknown_policy:
  assumes "align_how \<noteq> ''pad_both''" "align_how \<noteq> ''crop_both''"
    and "align_how \<noteq> ''pad_and_crop_one_to_match_other''"
  shows "(\<exists>e. shift_align load audio_a audio_b sr_a sr_b align_how min_overlap_sec max_shift_sec
                = Inl e)
     \<and> (load_input load audio_a sr_a = Inr (xa, Some ra)
          \<and> load_input load audio_b sr_b = Inr (xb, Some rb) \<longrightarrow>
          shift_align load audio_a audio_b sr_a sr_b align_how min_overlap_sec max_shift_sec
            = (case get_shift_ms xa xb ra rb 25 10 min_overlap_sec max_shift_sec of
                 Inl e \<Rightarrow> Inl e
               | Inr shift_ms \<Rightarrow>
                   Inl (PyException (''Unknown value for align_how '' @ align_how))))"
  using assms unfolding shift_align_def
  by (auto split: sum.splits option.splits prod.splits)

theorem shift_align_unknown_policy_witness:
  "''bogus'' \<noteq> ''pad_both'' \<and> ''bogus'' \<noteq> ''crop_both''
   \<and> ''bogus'' \<noteq> ''pad_and_crop_one_to_match_other''
   \<and> load_input (\<lambda>p sr. Inl (LoadError p)) (Array (replicate 48000 1)) (Some 16000)
        = Inr (replicate 48000 1, Some 16000)
   \<and> shift_align (\<lambda>p sr. Inl (LoadError p)) (Array (replicate 48000 1)) (Array (replicate 48000 1))
        (Some 16000) (Some 16000) ''bogus'' 1 30
        = Inl (PyException ''Unknown value for align_how bogus'')"
proof -
  have a: "''bogus'' \<noteq> ''pad_both''" and b: "''bogus'' \<noteq> ''crop_both''"
    and c: "''bogus'' \<noteq> ''pad_and_crop_one_to_match_other''" by simp_all
  have l: "load_input (\<lambda>p sr. Inl (LoadError p)) (Array (replicate 48000 1)) (Some 16000)
        = Inr (replicate 48000 1, Some 16000)" by (simp add: load_input_def)
  from shift_align_unknown_policy [OF a b c, of "\<lambda>p sr. Inl (LoadError p)"
      "Array (replicate 48000 1)" "Array (replicate 48000 1)" "Some 16000" "Some 16000" 1 30
      "replicate 48000 1" 16000 "replicate 48000 1" 16000] l
  have "shift_align (\<lambda>p sr. Inl (LoadError p)) (Array (replicate 48000 1)) (Array (replicate 48000 1))
        (Some 16000) (Some 16000) ''bogus'' 1 30
        = Inl (PyException (''Unknown value for align_how '' @ ''bogus''))"
    by (simp add: get_shift_ms_constant_3s)
  then show ?thesis using a b c l by simp
qed

text \<open>
  Claim C8 as stated fails: with an unknown policy and a first waveform of 399 samples
  the call fails with the \<open>ValueError\<close> of the correlation routine, so the envelopes were
  extracted and the correlation was attempted before the policy was looked at.
\<close>

theorem shift_align_unknown_policy_counterexample:
  "shift_align (\<lambda>p sr. Inl (LoadError p)) (Array (replicate 399 1)) (Array (replicate 48000 1))
        (Some 16000) (Some 16000) ''bogus'' 1 30
     = Inl (ValueError ''correlate: empty input'')"
  unfolding shift_align_def load_input_def by (simp add: get_shift_ms_short_3s)

end
